theory Spec2Isabelle
  imports Main "HOL-Library.Multiset"
begin

section \<open>Task Manager: the backend API over its Store and its Cache\<close>

text \<open>
  The development embeds \<^verbatim>\<open>services/backend/src/index.js\<close> (the Express handlers and
  the three cache helpers) together with the table definition, trigger and seed rows of
  the PostgreSQL initialisation script. A request handler is a function from the world
  (table, sequence, Redis content, connection flag, trace of I/O) to a response and the
  next world. What the environment decides for one request (the two clocks, whether the
  Store is reachable, which Redis command throws) is the record \<open>env\<close>.
\<close>

subsection \<open>Data model\<close>

type_synonym timestamp = int

text \<open>
  A row of \<^verbatim>\<open>tasks\<close>: \<^verbatim>\<open>id SERIAL PRIMARY KEY, title VARCHAR(255) NOT NULL,
  description TEXT DEFAULT '', completed BOOLEAN DEFAULT FALSE, created_at, updated_at
  TIMESTAMP DEFAULT CURRENT_TIMESTAMP\<close>. Only \<open>title\<close> is declared NOT NULL, so
  \<open>description\<close> and \<open>completed\<close> are nullable (\<open>None\<close> is SQL NULL). The two
  timestamps are nullable as well, but no statement of the program ever assigns them
  NULL. A character is one \<open>char\<close>, so \<open>length\<close> counts characters as VARCHAR does.
\<close>

record task =
  task_id :: int
  title :: string
  description :: "string option"
  completed :: "bool option"
  created_at :: timestamp
  updated_at :: timestamp

text \<open>
  A field of a JSON request body, read by destructuring: absent (\<open>undefined\<close>),
  \<open>null\<close>, or a value. The fields carry the JSON types of the API contract
  (strings for title and description, a boolean for completed).
\<close>

datatype 'a js = Undefined | Null | Val 'a

record body =
  body_title :: "string js"
  body_description :: "string js"
  body_completed :: "bool js"

datatype pg_error =
    Connection_failure
  | Not_null_violation
  | String_data_right_truncation
  | Invalid_text_representation
  | Numeric_value_out_of_range
  | Character_not_in_repertoire
  | Sequence_limit_exceeded

datatype exn = PgError pg_error | RedisError

datatype jsdata =
    Tasks "task list"
  | Task task
  | Stats nat nat nat
  | NoData

datatype service = Svc_ok | Svc_error | Svc_unavailable

datatype error_message =
    Task_not_found
  | Title_is_required
  | No_fields_to_update
  | Message exn

text \<open>
  The JSON envelopes the handlers send: \<^verbatim>\<open>{success, data, cached}\<close>,
  \<^verbatim>\<open>{success, data}\<close>, \<^verbatim>\<open>{success, message, id}\<close>, \<^verbatim>\<open>{success:false, error}\<close>,
  the two of \<^verbatim>\<open>/health\<close> and the fixed list of endpoints of \<^verbatim>\<open>/\<close>.
\<close>

datatype reply =
    DataCached jsdata bool
  | Data jsdata
  | Deleted int
  | Error error_message
  | Health service service
  | HealthError exn
  | Endpoints

type_synonym response = "nat \<times> reply"

datatype statement =
    Select_all | Select_by_id | Select_id | Insert | Update | Delete | Select_stats | Select_now

datatype event =
    Query statement
  | Get string
  | SetEx string nat
  | Keys string
  | Del "string list"
  | Ping
  | Send nat

text \<open>
  The world: the rows of the table, the next value of the sequence behind \<^verbatim>\<open>SERIAL\<close>,
  the entries Redis holds (key, value, expiry time), the program's flag
  \<open>redisConnected\<close>, and the I/O issued so far, oldest first. Console output is left
  out.
\<close>

record world =
  tasks :: "task list"
  tasks_id_seq :: int
  redis_db :: "(string \<times> jsdata \<times> timestamp) list"
  redisConnected :: bool
  trace :: "event list"

text \<open>
  What one request meets: the reading of the Store's clock (\<^verbatim>\<open>CURRENT_TIMESTAMP\<close>,
  \<^verbatim>\<open>NOW()\<close>) and of the cache's clock (against which entries expire), whether the
  Store is unreachable for the request (every statement then fails with a connection
  error), and for each Redis command whether it throws. Two things the sources leave to
  the PostgreSQL server are taken from the environment as well: \<open>id_input\<close>, the
  way the server reads the text of a parameter compared with the integer column \<open>id\<close>
  (the column type's input function, which differs between server versions), and
  \<open>scan_order\<close>, the order in which a scan delivers the rows of the table.
\<close>

record env =
  db_now :: timestamp
  cache_now :: timestamp
  store_down :: bool
  get_throws :: bool
  setEx_throws :: bool
  keys_throws :: bool
  del_throws :: bool
  ping_throws :: bool
  id_input :: "string \<Rightarrow> pg_error + int"
  scan_order :: "task list \<Rightarrow> task list"

definition emit :: "event \<Rightarrow> world \<Rightarrow> world" where
  "emit e w = w\<lparr>trace := trace w @ [e]\<rparr>"

definition send :: "nat \<Rightarrow> reply \<Rightarrow> world \<Rightarrow> response \<times> world" where
  "send st b w = ((st, b), emit (Send st) w)"

subsection \<open>The Store\<close>

text \<open>
  A text parameter may not contain the character NUL: the server refuses the value
  before it runs the statement.
\<close>

definition has_nul :: "string \<Rightarrow> bool" where
  "has_nul s = (CHR 0x00 \<in> set s)"

definition nul_in :: "string option \<Rightarrow> bool" where
  "nul_in v = (case v of None \<Rightarrow> False | Some s \<Rightarrow> has_nul s)"

text \<open>
  Integer input as PostgreSQL 16 and later read it, used for the concrete requests
  below: blanks, an optional sign, then decimal digits or hexadecimal, octal or binary
  digits after \<^verbatim>\<open>0x\<close>, \<^verbatim>\<open>0o\<close>, \<^verbatim>\<open>0b\<close>, with single underscores between digits,
  then blanks; the value must fit 32 bits. Earlier versions read decimal digits only.
  The theorems below hold for whatever \<open>id_input\<close> the environment has.
\<close>

definition is_space :: "char \<Rightarrow> bool" where
  "is_space c = (c \<in> set [CHR '' '', CHR 0x09, CHR 0x0A, CHR 0x0B, CHR 0x0C, CHR 0x0D])"

definition digit_value :: "char \<Rightarrow> int option" where
  "digit_value c =
    (let n = int (of_char c) in
     if 48 \<le> n \<and> n \<le> 57 then Some (n - 48)
     else if 97 \<le> n \<and> n \<le> 102 then Some (n - 87)
     else if 65 \<le> n \<and> n \<le> 70 then Some (n - 55)
     else None)"

definition digit_in :: "int \<Rightarrow> char \<Rightarrow> int option" where
  "digit_in base c =
    (case digit_value c of None \<Rightarrow> None | Some d \<Rightarrow> if d < base then Some d else None)"

text \<open>
  The digits are read into an unsigned 32-bit accumulator, which is never let past
  2147483648 before the next digit is taken in; reading stops at the first character
  that is neither a digit nor an underscore.
\<close>

fun read_digits :: "int \<Rightarrow> bool \<Rightarrow> int \<Rightarrow> string \<Rightarrow> pg_error + (int \<times> string)" where
  "read_digits base first tmp [] = Inr (tmp, [])"
| "read_digits base first tmp (c # cs) =
     (case digit_in base c of
        Some d \<Rightarrow>
          if 2147483648 < tmp * base then Inl Numeric_value_out_of_range
          else read_digits base False (tmp * base + d) cs
      | None \<Rightarrow>
          if c = CHR ''_'' then
            (if first \<and> base = 10 then Inl Invalid_text_representation
             else (case cs of
                     [] \<Rightarrow> Inl Invalid_text_representation
                   | c2 # rest \<Rightarrow>
                       if digit_in base c2 = None then Inl Invalid_text_representation
                       else read_digits base False tmp cs))
          else Inr (tmp, c # cs))"

fun radix :: "string \<Rightarrow> int \<times> string" where
  "radix (c0 # c1 # cs) =
     (if c0 = CHR ''0'' \<and> (c1 = CHR ''x'' \<or> c1 = CHR ''X'') then (16, cs)
      else if c0 = CHR ''0'' \<and> (c1 = CHR ''o'' \<or> c1 = CHR ''O'') then (8, cs)
      else if c0 = CHR ''0'' \<and> (c1 = CHR ''b'' \<or> c1 = CHR ''B'') then (2, cs)
      else (10, c0 # c1 # cs))"
| "radix s = (10, s)"

definition int4in :: "string \<Rightarrow> pg_error + int" where
  "int4in s =
    (if has_nul s then Inl Character_not_in_repertoire
     else
       (let t = dropWhile is_space s;
            neg = (t \<noteq> [] \<and> hd t = CHR ''-'');
            u = (if t \<noteq> [] \<and> (hd t = CHR ''-'' \<or> hd t = CHR ''+'') then tl t else t);
            base = fst (radix u);
            ds = snd (radix u)
        in case read_digits base True 0 ds of
             Inl e \<Rightarrow> Inl e
           | Inr (tmp, rest) \<Rightarrow>
               if length rest = length ds then Inl Invalid_text_representation
               else if dropWhile is_space rest \<noteq> [] then Inl Invalid_text_representation
               else if neg then
                 (if 2147483648 < tmp then Inl Numeric_value_out_of_range else Inr (- tmp))
               else
                 (if 2147483647 < tmp then Inl Numeric_value_out_of_range else Inr tmp)))"

text \<open>
  Assignment to \<^verbatim>\<open>VARCHAR(255)\<close>: a longer value is an error unless the excess is all
  spaces, which are cut off.
\<close>

definition varchar255 :: "string \<Rightarrow> pg_error + string" where
  "varchar255 s =
    (if length s \<le> 255 then Inr s
     else if list_all (\<lambda>c. c = CHR '' '') (drop 255 s) then Inr (take 255 s)
     else Inl String_data_right_truncation)"

definition too_long :: "string \<Rightarrow> bool" where
  "too_long s = (255 < length s \<and> \<not> list_all (\<lambda>c. c = CHR '' '') (drop 255 s))"

text \<open>The value node-postgres sends for a JavaScript value: \<open>undefined\<close> and \<open>null\<close> are NULL.\<close>

fun to_sql :: "'a js \<Rightarrow> 'a option" where
  "to_sql Undefined = None"
| "to_sql Null = None"
| "to_sql (Val v) = Some v"

text \<open>
  The rows of the table in the order a scan delivers them. The table does not fix that
  order; it is the environment's \<open>scan_order\<close>, of which only a rearrangement of the
  rows is admitted.
\<close>

definition scan :: "env \<Rightarrow> task list \<Rightarrow> task list" where
  "scan env rows =
    (if mset (scan_order env rows) = mset rows then scan_order env rows else rows)"

text \<open>
  \<^verbatim>\<open>ORDER BY created_at DESC\<close> over the rows delivered: rows with equal created_at
  stay in the order of delivery, so their order in the result is the environment's.
\<close>

definition order_by_created_at_desc :: "task list \<Rightarrow> task list" where
  "order_by_created_at_desc rows = sort_key (\<lambda>t. - created_at t) rows"

text \<open>\<^verbatim>\<open>SELECT ... FROM tasks ORDER BY created_at DESC\<close>\<close>

definition pg_select_all :: "env \<Rightarrow> world \<Rightarrow> (pg_error + task list) \<times> world" where
  "pg_select_all env w =
    (let w1 = emit (Query Select_all) w in
     if store_down env then (Inl Connection_failure, w1)
     else (Inr (order_by_created_at_desc (scan env (tasks w1))), w1))"

text \<open>\<^verbatim>\<open>SELECT ... FROM tasks WHERE id = $1\<close>, also the \<^verbatim>\<open>SELECT id\<close> of the update handler.\<close>

definition pg_select_where_id ::
  "statement \<Rightarrow> string \<Rightarrow> env \<Rightarrow> world \<Rightarrow> (pg_error + task list) \<times> world" where
  "pg_select_where_id st ident env w =
    (let w1 = emit (Query st) w in
     if store_down env then (Inl Connection_failure, w1)
     else (case id_input env ident of
             Inl e \<Rightarrow> (Inl e, w1)
           | Inr n \<Rightarrow> (Inr (filter (\<lambda>t. task_id t = n) (tasks w1)), w1)))"

text \<open>The length coercion of a title parameter, which may be NULL.\<close>

definition coerce_title :: "string option \<Rightarrow> pg_error + string option" where
  "coerce_title v =
    (case v of
       None \<Rightarrow> Inr None
     | Some s \<Rightarrow> (case varchar255 s of Inl e \<Rightarrow> Inl e | Inr s' \<Rightarrow> Inr (Some s')))"

text \<open>
  \<^verbatim>\<open>INSERT INTO tasks (title, description) VALUES ($1, $2) RETURNING ...\<close>. The server
  refuses a parameter with NUL when it binds the parameters and a title that is too long
  when it plans the statement, both before the statement runs, so neither takes a value
  from the sequence. The statement then takes the id from the sequence, checks NOT NULL,
  and stores the row; completed takes its default FALSE and both timestamps the default
  CURRENT_TIMESTAMP.
\<close>

definition pg_insert ::
  "string option \<Rightarrow> string option \<Rightarrow> env \<Rightarrow> world \<Rightarrow> (pg_error + task list) \<times> world" where
  "pg_insert ttl descr env w =
    (let w1 = emit (Query Insert) w in
     if store_down env then (Inl Connection_failure, w1)
     else if nul_in ttl \<or> nul_in descr then (Inl Character_not_in_repertoire, w1)
     else
       (case coerce_title ttl of
          Inl e \<Rightarrow> (Inl e, w1)
        | Inr ttl' \<Rightarrow>
            if 2147483647 < tasks_id_seq w1 then (Inl Sequence_limit_exceeded, w1)
            else
              (let n = tasks_id_seq w1; w2 = w1\<lparr>tasks_id_seq := n + 1\<rparr> in
               case ttl' of
                 None \<Rightarrow> (Inl Not_null_violation, w2)
               | Some s' \<Rightarrow>
                   (let row = \<lparr>task_id = n, title = s', description = descr,
                                completed = Some False,
                                created_at = db_now env, updated_at = db_now env\<rparr>
                    in (Inr [row], w2\<lparr>tasks := tasks w2 @ [row]\<rparr>)))))"

text \<open>One item of the SET clause the update handler builds, with its parameter.\<close>

datatype assignment =
    Set_title "string option"
  | Set_description "string option"
  | Set_completed "bool option"

text \<open>The checks on the parameters of an update before the statement runs: NUL, then length.\<close>

fun refused :: "assignment \<Rightarrow> bool" where
  "refused (Set_title v) = nul_in v"
| "refused (Set_description v) = nul_in v"
| "refused (Set_completed c) = False"

fun coerce :: "assignment \<Rightarrow> pg_error + assignment" where
  "coerce (Set_title v) =
     (case coerce_title v of Inl e \<Rightarrow> Inl e | Inr v' \<Rightarrow> Inr (Set_title v'))"
| "coerce a = Inr a"

fun coerce_all :: "assignment list \<Rightarrow> pg_error + assignment list" where
  "coerce_all [] = Inr []"
| "coerce_all (a # as) =
     (case coerce a of
        Inl e \<Rightarrow> Inl e
      | Inr a' \<Rightarrow> (case coerce_all as of Inl e \<Rightarrow> Inl e | Inr as' \<Rightarrow> Inr (a' # as')))"

text \<open>
  The assignment to a row of a parameter that has passed the checks above (the update
  below applies both before it touches a row); what is checked here is NOT NULL.
\<close>

fun assign :: "assignment \<Rightarrow> task \<Rightarrow> pg_error + task" where
  "assign (Set_title None) t = Inl Not_null_violation"
| "assign (Set_title (Some s)) t = Inr (t\<lparr>title := s\<rparr>)"
| "assign (Set_description d) t = Inr (t\<lparr>description := d\<rparr>)"
| "assign (Set_completed c) t = Inr (t\<lparr>completed := c\<rparr>)"

fun assign_all :: "assignment list \<Rightarrow> task \<Rightarrow> pg_error + task" where
  "assign_all [] t = Inr t"
| "assign_all (a # as) t =
     (case assign a t of Inl e \<Rightarrow> Inl e | Inr t' \<Rightarrow> assign_all as t')"

text \<open>
  The new version of a row under \<^verbatim>\<open>UPDATE tasks SET ..., updated_at = NOW()\<close>; the
  trigger \<^verbatim>\<open>update_tasks_updated_at\<close> (BEFORE UPDATE, FOR EACH ROW) assigns
  \<^verbatim>\<open>CURRENT_TIMESTAMP\<close> to \<^verbatim>\<open>updated_at\<close> once more.
\<close>

definition update_row :: "assignment list \<Rightarrow> timestamp \<Rightarrow> task \<Rightarrow> pg_error + task" where
  "update_row updates now t =
    (case assign_all updates t of
       Inl e \<Rightarrow> Inl e
     | Inr t' \<Rightarrow> Inr (t'\<lparr>updated_at := now\<rparr>))"

fun update_where ::
  "int \<Rightarrow> (task \<Rightarrow> pg_error + task) \<Rightarrow> task list \<Rightarrow> pg_error + (task list \<times> task list)" where
  "update_where n f [] = Inr ([], [])"
| "update_where n f (t # ts) =
     (if task_id t = n then
        (case f t of
           Inl e \<Rightarrow> Inl e
         | Inr t' \<Rightarrow>
             (case update_where n f ts of
                Inl e \<Rightarrow> Inl e
              | Inr (tab, ret) \<Rightarrow> Inr (t' # tab, t' # ret)))
      else
        (case update_where n f ts of
           Inl e \<Rightarrow> Inl e
         | Inr (tab, ret) \<Rightarrow> Inr (t # tab, ret)))"

text \<open>
  \<^verbatim>\<open>UPDATE tasks SET ... WHERE id = $n RETURNING ...\<close>. The parameters are bound in
  their order (the field values, then the id), then the title is coerced to its length,
  then the statement runs; a refused parameter or a rejected row leaves the table as it
  was.
\<close>

definition pg_update ::
  "assignment list \<Rightarrow> string \<Rightarrow> env \<Rightarrow> world \<Rightarrow> (pg_error + task list) \<times> world" where
  "pg_update updates ident env w =
    (let w1 = emit (Query Update) w in
     if store_down env then (Inl Connection_failure, w1)
     else if list_ex refused updates then (Inl Character_not_in_repertoire, w1)
     else
       (case id_input env ident of
          Inl e \<Rightarrow> (Inl e, w1)
        | Inr n \<Rightarrow>
            (case coerce_all updates of
               Inl e \<Rightarrow> (Inl e, w1)
             | Inr us \<Rightarrow>
                 (case update_where n (update_row us (db_now env)) (tasks w1) of
                    Inl e \<Rightarrow> (Inl e, w1)
                  | Inr (tab, ret) \<Rightarrow> (Inr ret, w1\<lparr>tasks := tab\<rparr>)))))"

text \<open>\<^verbatim>\<open>DELETE FROM tasks WHERE id = $1 RETURNING id\<close>\<close>

definition pg_delete :: "string \<Rightarrow> env \<Rightarrow> world \<Rightarrow> (pg_error + int list) \<times> world" where
  "pg_delete ident env w =
    (let w1 = emit (Query Delete) w in
     if store_down env then (Inl Connection_failure, w1)
     else (case id_input env ident of
             Inl e \<Rightarrow> (Inl e, w1)
           | Inr n \<Rightarrow>
               (Inr (map task_id (filter (\<lambda>t. task_id t = n) (tasks w1))),
                w1\<lparr>tasks := filter (\<lambda>t. task_id t \<noteq> n) (tasks w1)\<rparr>)))"

text \<open>
  \<^verbatim>\<open>SELECT COUNT(*) as total, COUNT(CASE WHEN completed = true THEN 1 END) as completed,
  COUNT(CASE WHEN completed = false THEN 1 END) as pending FROM tasks\<close>: a comparison with
  NULL is not true, so a row whose completed is NULL is counted in neither.
\<close>

definition pg_stats :: "env \<Rightarrow> world \<Rightarrow> (pg_error + nat \<times> nat \<times> nat) \<times> world" where
  "pg_stats env w =
    (let w1 = emit (Query Select_stats) w in
     if store_down env then (Inl Connection_failure, w1)
     else (Inr (length (tasks w1),
                length (filter (\<lambda>t. completed t = Some True) (tasks w1)),
                length (filter (\<lambda>t. completed t = Some False) (tasks w1))), w1))"

definition pg_now :: "env \<Rightarrow> world \<Rightarrow> (pg_error + timestamp) \<times> world" where
  "pg_now env w =
    (let w1 = emit (Query Select_now) w in
     if store_down env then (Inl Connection_failure, w1) else (Inr (db_now env), w1))"

subsection \<open>The Cache\<close>

text \<open>
  Redis as the program uses it: GET, SETEX, KEYS and DEL over entries that carry their
  expiry time. A command that throws has no effect. KEYS matches glob patterns, of which
  \<open>*\<close> and \<open>?\<close> are modelled; the program only ever passes \<^verbatim>\<open>tasks:*\<close>. The
  stored text is the JSON of the value, read back by \<^verbatim>\<open>JSON.parse\<close>.
\<close>

fun glob_match :: "string \<Rightarrow> string \<Rightarrow> bool" where
  "glob_match [] [] = True"
| "glob_match [] (c # cs) = False"
| "glob_match (p # ps) [] = (p = CHR ''*'' \<and> glob_match ps [])"
| "glob_match (p # ps) (c # cs) =
     (if p = CHR ''*'' then glob_match ps (c # cs) \<or> glob_match (p # ps) cs
      else (p = CHR ''?'' \<or> p = c) \<and> glob_match ps cs)"

definition live :: "timestamp \<Rightarrow> string \<times> jsdata \<times> timestamp \<Rightarrow> bool" where
  "live now e = (now < snd (snd e))"

definition redis_get :: "string \<Rightarrow> env \<Rightarrow> world \<Rightarrow> (exn + jsdata option) \<times> world" where
  "redis_get key env w =
    (let w1 = emit (Get key) w in
     if get_throws env then (Inl RedisError, w1)
     else (Inr (map_option fst (map_of (filter (live (cache_now env)) (redis_db w1)) key)), w1))"

definition redis_setEx ::
  "string \<Rightarrow> nat \<Rightarrow> jsdata \<Rightarrow> env \<Rightarrow> world \<Rightarrow> (exn + unit) \<times> world" where
  "redis_setEx key seconds v env w =
    (let w1 = emit (SetEx key seconds) w in
     if setEx_throws env then (Inl RedisError, w1)
     else (Inr (), w1\<lparr>redis_db := (key, v, cache_now env + int seconds)
                                  # filter (\<lambda>e. fst e \<noteq> key) (redis_db w1)\<rparr>))"

definition redis_keys :: "string \<Rightarrow> env \<Rightarrow> world \<Rightarrow> (exn + string list) \<times> world" where
  "redis_keys pattern env w =
    (let w1 = emit (Keys pattern) w in
     if keys_throws env then (Inl RedisError, w1)
     else (Inr (map fst (filter (\<lambda>e. live (cache_now env) e \<and> glob_match pattern (fst e))
                                (redis_db w1))), w1))"

definition redis_del :: "string list \<Rightarrow> env \<Rightarrow> world \<Rightarrow> (exn + unit) \<times> world" where
  "redis_del ks env w =
    (let w1 = emit (Del ks) w in
     if del_throws env then (Inl RedisError, w1)
     else (Inr (), w1\<lparr>redis_db := filter (\<lambda>e. fst e \<notin> set ks) (redis_db w1)\<rparr>))"

definition redis_ping :: "env \<Rightarrow> world \<Rightarrow> (exn + unit) \<times> world" where
  "redis_ping env w =
    (let w1 = emit Ping w in
     if ping_throws env then (Inl RedisError, w1) else (Inr (), w1))"

text \<open>The keys KEYS answers with: those of the unexpired entries that match the pattern.\<close>

definition matching :: "string \<Rightarrow> env \<Rightarrow> world \<Rightarrow> string list" where
  "matching p env w =
    map fst (filter (\<lambda>e. live (cache_now env) e \<and> glob_match p (fst e)) (redis_db w))"

subsection \<open>Cache helpers\<close>

text \<open>Each helper returns at once when \<open>redisConnected\<close> is false and catches whatever Redis throws.\<close>

definition getFromCache :: "string \<Rightarrow> env \<Rightarrow> world \<Rightarrow> jsdata option \<times> world" where
  "getFromCache key env w =
    (if \<not> redisConnected w then (None, w)
     else (case redis_get key env w of
             (Inl error, w1) \<Rightarrow> (None, w1)
           | (Inr data, w1) \<Rightarrow> (data, w1)))"

definition setInCache :: "string \<Rightarrow> jsdata \<Rightarrow> nat \<Rightarrow> env \<Rightarrow> world \<Rightarrow> world" where
  "setInCache key v expirationSeconds env w =
    (if \<not> redisConnected w then w
     else snd (redis_setEx key expirationSeconds v env w))"

definition invalidateCache :: "string \<Rightarrow> env \<Rightarrow> world \<Rightarrow> world" where
  "invalidateCache pattern env w =
    (if \<not> redisConnected w then w
     else (case redis_keys pattern env w of
             (Inl error, w1) \<Rightarrow> w1
           | (Inr ks, w1) \<Rightarrow> if 0 < length ks then snd (redis_del ks env w1) else w1))"

subsection \<open>Request handlers\<close>

text \<open>\<^verbatim>\<open>GET /api/tasks\<close>\<close>

definition get_tasks :: "env \<Rightarrow> world \<Rightarrow> response \<times> world" where
  "get_tasks env w =
    (case getFromCache ''tasks:all'' env w of
       (Some cachedData, w1) \<Rightarrow> send 200 (DataCached cachedData True) w1
     | (None, w1) \<Rightarrow>
         (case pg_select_all env w1 of
            (Inl error, w2) \<Rightarrow> send 500 (Error (Message (PgError error))) w2
          | (Inr rows, w2) \<Rightarrow>
              send 200 (DataCached (Tasks rows) False)
                (setInCache ''tasks:all'' (Tasks rows) 60 env w2)))"

text \<open>\<^verbatim>\<open>GET /api/tasks/:id\<close>\<close>

definition get_task :: "string \<Rightarrow> env \<Rightarrow> world \<Rightarrow> response \<times> world" where
  "get_task ident env w =
    (case getFromCache (''tasks:'' @ ident) env w of
       (Some cachedData, w1) \<Rightarrow> send 200 (DataCached cachedData True) w1
     | (None, w1) \<Rightarrow>
         (case pg_select_where_id Select_by_id ident env w1 of
            (Inl error, w2) \<Rightarrow> send 500 (Error (Message (PgError error))) w2
          | (Inr [], w2) \<Rightarrow> send 404 (Error Task_not_found) w2
          | (Inr (t # rest), w2) \<Rightarrow>
              send 200 (DataCached (Task t) False)
                (setInCache (''tasks:'' @ ident) (Task t) 300 env w2)))"

text \<open>\<^verbatim>\<open>!title\<close> on a string field: absent, null and the empty string are falsy.\<close>

fun falsy :: "string js \<Rightarrow> bool" where
  "falsy Undefined = True"
| "falsy Null = True"
| "falsy (Val s) = (s = [])"

text \<open>\<^verbatim>\<open>description || ''\<close>\<close>

fun or_empty :: "string js \<Rightarrow> string js" where
  "or_empty d = (if falsy d then Val [] else d)"

text \<open>\<^verbatim>\<open>rows[0]\<close>, which is \<open>undefined\<close> on an empty array.\<close>

fun first_row :: "task list \<Rightarrow> jsdata" where
  "first_row [] = NoData"
| "first_row (t # ts) = Task t"

text \<open>\<^verbatim>\<open>POST /api/tasks\<close>: only title and description are read from the body.\<close>

definition post_task :: "body \<Rightarrow> env \<Rightarrow> world \<Rightarrow> response \<times> world" where
  "post_task b env w =
    (if falsy (body_title b) then send 400 (Error Title_is_required) w
     else
       (case pg_insert (to_sql (body_title b)) (to_sql (or_empty (body_description b))) env w of
          (Inl error, w1) \<Rightarrow> send 500 (Error (Message (PgError error))) w1
        | (Inr rows, w1) \<Rightarrow>
            send 201 (Data (first_row rows)) (invalidateCache ''tasks:*'' env w1)))"

text \<open>The \<open>updates\<close> and \<open>values\<close> arrays of the update handler, before \<^verbatim>\<open>updated_at = NOW()\<close> is pushed.\<close>

definition build_updates :: "body \<Rightarrow> assignment list" where
  "build_updates b =
    (if body_title b \<noteq> Undefined then [Set_title (to_sql (body_title b))] else []) @
    (if body_description b \<noteq> Undefined then [Set_description (to_sql (body_description b))] else []) @
    (if body_completed b \<noteq> Undefined then [Set_completed (to_sql (body_completed b))] else [])"

text \<open>\<^verbatim>\<open>PUT /api/tasks/:id\<close>\<close>

definition put_task :: "string \<Rightarrow> body \<Rightarrow> env \<Rightarrow> world \<Rightarrow> response \<times> world" where
  "put_task ident b env w =
    (case pg_select_where_id Select_id ident env w of
       (Inl error, w1) \<Rightarrow> send 500 (Error (Message (PgError error))) w1
     | (Inr checkRows, w1) \<Rightarrow>
         if length checkRows = 0 then send 404 (Error Task_not_found) w1
         else
           (let updates = build_updates b in
            if length updates = 0 then send 400 (Error No_fields_to_update) w1
            else
              (case pg_update updates ident env w1 of
                 (Inl error, w2) \<Rightarrow> send 500 (Error (Message (PgError error))) w2
               | (Inr rows, w2) \<Rightarrow>
                   send 200 (Data (first_row rows)) (invalidateCache ''tasks:*'' env w2))))"

text \<open>\<^verbatim>\<open>DELETE /api/tasks/:id\<close>\<close>

definition delete_task :: "string \<Rightarrow> env \<Rightarrow> world \<Rightarrow> response \<times> world" where
  "delete_task ident env w =
    (case pg_delete ident env w of
       (Inl error, w1) \<Rightarrow> send 500 (Error (Message (PgError error))) w1
     | (Inr [], w1) \<Rightarrow> send 404 (Error Task_not_found) w1
     | (Inr (i # rest), w1) \<Rightarrow> send 200 (Deleted i) (invalidateCache ''tasks:*'' env w1))"

text \<open>\<^verbatim>\<open>GET /api/stats\<close>\<close>

definition get_stats :: "env \<Rightarrow> world \<Rightarrow> response \<times> world" where
  "get_stats env w =
    (case pg_stats env w of
       (Inl error, w1) \<Rightarrow> send 500 (Error (Message (PgError error))) w1
     | (Inr (n_total, n_completed, n_pending), w1) \<Rightarrow>
         send 200 (Data (Stats n_total n_completed n_pending)) w1)"

text \<open>\<^verbatim>\<open>GET /health\<close>\<close>

definition get_health :: "env \<Rightarrow> world \<Rightarrow> response \<times> world" where
  "get_health env w =
    (case pg_now env w of
       (Inl error, w1) \<Rightarrow> send 500 (HealthError (PgError error)) w1
     | (Inr rows, w1) \<Rightarrow>
         if redisConnected w1 then
           (case redis_ping env w1 of
              (Inl error, w2) \<Rightarrow> send 200 (Health Svc_ok Svc_error) w2
            | (Inr u, w2) \<Rightarrow> send 200 (Health Svc_ok Svc_ok) w2)
         else send 200 (Health Svc_ok Svc_unavailable) w1)"

text \<open>\<^verbatim>\<open>GET /\<close>\<close>

definition get_root :: "env \<Rightarrow> world \<Rightarrow> response \<times> world" where
  "get_root env w = send 200 Endpoints w"

datatype request =
    GET_tasks
  | GET_task string
  | POST_task body
  | PUT_task string body
  | DELETE_task string
  | GET_stats
  | GET_health
  | GET_root

fun handle :: "request \<Rightarrow> env \<Rightarrow> world \<Rightarrow> response \<times> world" where
  "handle GET_tasks env w = get_tasks env w"
| "handle (GET_task ident) env w = get_task ident env w"
| "handle (POST_task b) env w = post_task b env w"
| "handle (PUT_task ident b) env w = put_task ident b env w"
| "handle (DELETE_task ident) env w = delete_task ident env w"
| "handle GET_stats env w = get_stats env w"
| "handle GET_health env w = get_health env w"
| "handle GET_root env w = get_root env w"

subsection \<open>Initial state and reachable states\<close>

text \<open>
  The initialisation script creates the table and inserts eight rows through the
  sequence, in one statement, so the rows share their timestamps. The program starts
  with \<open>redisConnected = false\<close>; the client's \<open>connect\<close> and \<open>error\<close> events
  set and clear the flag.
\<close>

definition e_acute :: char where
  "e_acute = CHR 0xE9"

definition seed :: "timestamp \<Rightarrow> int \<Rightarrow> string \<Rightarrow> string \<Rightarrow> task" where
  "seed t0 n ttl descr =
    \<lparr>task_id = n, title = ttl, description = Some descr, completed = Some False,
     created_at = t0, updated_at = t0\<rparr>"

definition seed_rows :: "timestamp \<Rightarrow> task list" where
  "seed_rows t0 =
    [seed t0 1 ''Dockeriser le frontend''
       (''Cr'' @ [e_acute] @ ''er un Dockerfile multi-stage pour React/Vite''),
     seed t0 2 ''Dockeriser le backend''
       (''Cr'' @ [e_acute] @ ''er un Dockerfile multi-stage pour Node.js/Express''),
     seed t0 3 (''Cr'' @ [e_acute] @ ''er les scripts bash'')
       ''build.sh, start.sh, stop.sh, backup-db.sh, restore-db.sh'',
     seed t0 4 (''Configurer les r'' @ [e_acute] @ ''seaux'')
       (''Cr'' @ [e_acute] @ ''er frontend et backend (isol'' @ [e_acute] @ '')''),
     seed t0 5 ''Configurer les volumes'' ''postgres-data et redis-data'',
     seed t0 6 ''Scanner avec Trivy''
       (''V'' @ [e_acute] @ ''rifier les vuln'' @ [e_acute] @ ''rabilit'' @ [e_acute] @ ''s des images''),
     seed t0 7 ''Documenter le projet'' ''README.md, ARCHITECTURE.md, SECURITY.md, etc.'',
     seed t0 8 (''Pr'' @ [e_acute] @ ''parer la soutenance'')
       (''D'' @ [e_acute] @ ''mo live et pr'' @ [e_acute] @ ''sentation de 15 minutes'')]"

definition initial_world :: "timestamp \<Rightarrow> world" where
  "initial_world t0 =
    \<lparr>tasks = seed_rows t0, tasks_id_seq = 9, redis_db = [], redisConnected = False,
     trace = []\<rparr>"


inductive reachable :: "world \<Rightarrow> bool" where
  start: "reachable (initial_world t0)"
| request: "reachable w \<Longrightarrow> reachable (snd (handle req env w))"
| redis_connect: "reachable w \<Longrightarrow> reachable (w\<lparr>redisConnected := True\<rparr>)"
| redis_error: "reachable w \<Longrightarrow> reachable (w\<lparr>redisConnected := False\<rparr>)"

text \<open>
  The primary key and the sequence: no two rows share an id, and every id in the table is
  below the next value of the sequence.
\<close>

definition ids_issued :: "world \<Rightarrow> bool" where
  "ids_issued w =
    (distinct (map task_id (tasks w)) \<and> list_all (\<lambda>t. task_id t < tasks_id_seq w) (tasks w))"

text \<open>
  The field values the table does not take: a text with NUL; for the title also NULL
  and a text that does not fit \<^verbatim>\<open>VARCHAR(255)\<close>.
\<close>

definition text_rejected :: "string js \<Rightarrow> bool" where
  "text_rejected v = (case v of Val s \<Rightarrow> has_nul s | _ \<Rightarrow> False)"

definition title_rejected :: "string js \<Rightarrow> bool" where
  "title_rejected v =
    (case v of Undefined \<Rightarrow> False | Null \<Rightarrow> True | Val s \<Rightarrow> has_nul s \<or> too_long s)"

text \<open>The statement by which a write request changes the table.\<close>

fun write_statement :: "request \<Rightarrow> statement option" where
  "write_statement (POST_task b) = Some Insert"
| "write_statement (PUT_task ident b) = Some Update"
| "write_statement (DELETE_task ident) = Some Delete"
| "write_statement req = None"

text \<open>The events of one cache invalidation: the KEYS command and, when it found keys, the DEL.\<close>

fun invalidation_event :: "event \<Rightarrow> bool" where
  "invalidation_event (Keys pattern) = (pattern = ''tasks:*'')"
| "invalidation_event (Del ks) = True"
| "invalidation_event e = False"

text \<open>What a read answers when it is served by the Store alone.\<close>

definition tasks_from_store :: "env \<Rightarrow> world \<Rightarrow> response" where
  "tasks_from_store env w =
    (if store_down env then (500, Error (Message (PgError Connection_failure)))
     else (200, DataCached (Tasks (order_by_created_at_desc (scan env (tasks w)))) False))"

definition task_from_store :: "string \<Rightarrow> env \<Rightarrow> world \<Rightarrow> response" where
  "task_from_store ident env w =
    (if store_down env then (500, Error (Message (PgError Connection_failure)))
     else (case id_input env ident of
             Inl e \<Rightarrow> (500, Error (Message (PgError e)))
           | Inr n \<Rightarrow>
               (case filter (\<lambda>t. task_id t = n) (tasks w) of
                  [] \<Rightarrow> (404, Error Task_not_found)
                | t # rest \<Rightarrow> (200, DataCached (Task t) False))))"

subsection \<open>Concrete requests and environments\<close>

definition calm :: "timestamp \<Rightarrow> env" where
  "calm now =
    \<lparr>db_now = now, cache_now = now, store_down = False, get_throws = False,
     setEx_throws = False, keys_throws = False, del_throws = False, ping_throws = False,
     id_input = int4in, scan_order = (\<lambda>rows. rows)\<rparr>"

definition no_fields :: body where
  "no_fields = \<lparr>body_title = Undefined, body_description = Undefined, body_completed = Undefined\<rparr>"

definition buy_milk :: body where
  "buy_milk = no_fields\<lparr>body_title := Val ''Buy milk''\<rparr>"

definition long_title :: body where
  "long_title = no_fields\<lparr>body_title := Val (replicate 256 (CHR ''a''))\<rparr>"

definition null_title :: body where
  "null_title = no_fields\<lparr>body_title := Null\<rparr>"

definition done_with_notes :: body where
  "done_with_notes = no_fields\<lparr>body_description := Val ''notes'', body_completed := Val True\<rparr>"

definition nul_title :: body where
  "nul_title = no_fields\<lparr>body_title := Val [CHR ''a'', CHR 0x00, CHR ''b'']\<rparr>"

definition nul_description :: body where
  "nul_description = no_fields\<lparr>body_description := Val [CHR ''a'', CHR 0x00, CHR ''b'']\<rparr>"

text \<open>The seeded table after \<^verbatim>\<open>PUT /api/tasks/1\<close> with body \<^verbatim>\<open>{"completed": null}\<close>.\<close>

definition world_null_completed :: world where
  "world_null_completed =
    snd (handle (PUT_task ''1'' (no_fields\<lparr>body_completed := Null\<rparr>)) (calm 1) (initial_world 0))"

text \<open>The seeded table after \<^verbatim>\<open>PUT /api/tasks/1\<close> with body \<^verbatim>\<open>{"title": ""}\<close>.\<close>

definition world_empty_title :: world where
  "world_empty_title =
    snd (handle (PUT_task ''1'' (no_fields\<lparr>body_title := Val []\<rparr>)) (calm 1) (initial_world 0))"

text \<open>
  The seeded program once its Redis client has connected; the same after one listing at
  time 1, which leaves the list cached under \<^verbatim>\<open>tasks:all\<close> until time 61; and an
  environment at time 5 in which GET, SETEX and KEYS throw.
\<close>

definition connected :: world where
  "connected = (initial_world 0)\<lparr>redisConnected := True\<rparr>"

definition warm :: world where
  "warm = snd (handle GET_tasks (calm 1) connected)"

definition faulty :: env where
  "faulty = (calm 5)\<lparr>get_throws := True, setEx_throws := True, keys_throws := True\<rparr>"

text \<open>
  The world a create request at time 6 leaves behind when it starts from the warm cache;
  the same request in an environment whose DEL throws, and in one whose KEYS throws, so
  that the invalidation fails, and the worlds those leave behind.
\<close>

definition world_after_create :: world where
  "world_after_create = snd (handle (POST_task buy_milk) (calm 6) warm)"



definition keys_fail :: env where
  "keys_fail = (calm 6)\<lparr>keys_throws := True\<rparr>"

definition world_after_failed_invalidation :: world where
  "world_after_failed_invalidation = snd (handle (POST_task buy_milk) keys_fail warm)"

section \<open>Properties\<close>

subsection \<open>What each step leaves alone\<close>

lemma emit_simps [simp]:
  "tasks (emit e w) = tasks w"
  "tasks_id_seq (emit e w) = tasks_id_seq w"
  "redis_db (emit e w) = redis_db w"
  "redisConnected (emit e w) = redisConnected w"
  "trace (emit e w) = trace w @ [e]"
  by (simp_all add: emit_def)

lemma calm_simps [simp]:
  "db_now (calm now) = now"
  "cache_now (calm now) = now"
  "\<not> store_down (calm now)"
  "\<not> get_throws (calm now)"
  "\<not> setEx_throws (calm now)"
  "\<not> keys_throws (calm now)"
  "\<not> del_throws (calm now)"
  "\<not> ping_throws (calm now)"
  "id_input (calm now) = int4in"
  by (simp_all add: calm_def)

lemma send_simps [simp]:
  "fst (send st b w) = (st, b)"
  "snd (send st b w) = emit (Send st) w"
  by (simp_all add: send_def)

lemma getFromCache_frame [simp]:
  "tasks (snd (getFromCache k env w)) = tasks w"
  "tasks_id_seq (snd (getFromCache k env w)) = tasks_id_seq w"
  "redis_db (snd (getFromCache k env w)) = redis_db w"
  "redisConnected (snd (getFromCache k env w)) = redisConnected w"
  by (simp_all add: getFromCache_def redis_get_def Let_def)


lemma getFromCache_value:
  "fst (getFromCache k env w) =
    (if redisConnected w \<and> \<not> get_throws env
     then map_option fst (map_of (filter (live (cache_now env)) (redis_db w)) k) else None)"
  by (simp add: getFromCache_def redis_get_def Let_def)

lemma setInCache_frame [simp]:
  "tasks (setInCache k v n env w) = tasks w"
  "tasks_id_seq (setInCache k v n env w) = tasks_id_seq w"
  "redisConnected (setInCache k v n env w) = redisConnected w"
  by (simp_all add: setInCache_def redis_setEx_def Let_def)


lemma setInCache_db:
  "redis_db (setInCache k v n env w) =
    (if redisConnected w \<and> \<not> setEx_throws env
     then (k, v, cache_now env + int n) # filter (\<lambda>e. fst e \<noteq> k) (redis_db w)
     else redis_db w)"
  by (simp add: setInCache_def redis_setEx_def Let_def)

lemma invalidateCache_frame [simp]:
  "tasks (invalidateCache p env w) = tasks w"
  "tasks_id_seq (invalidateCache p env w) = tasks_id_seq w"
  "redisConnected (invalidateCache p env w) = redisConnected w"
  by (simp_all add: invalidateCache_def redis_keys_def redis_del_def Let_def)

lemma invalidateCache_trace:
  "trace (invalidateCache p env w) = trace w @
    (if \<not> redisConnected w then []
     else if keys_throws env \<or> matching p env w = [] then [Keys p]
     else [Keys p, Del (matching p env w)])"
  by (simp add: invalidateCache_def redis_keys_def redis_del_def Let_def matching_def)

lemma invalidateCache_db:
  "redis_db (invalidateCache p env w) =
    (if redisConnected w \<and> \<not> keys_throws env \<and> \<not> del_throws env
     then filter (\<lambda>e. fst e \<notin> set (matching p env w)) (redis_db w)
     else redis_db w)"
proof (cases "matching p env w = []")
  case True
  then have "filter (\<lambda>e. fst e \<notin> set (matching p env w)) (redis_db w) = redis_db w"
    by simp
  with True show ?thesis
    by (simp add: invalidateCache_def redis_keys_def redis_del_def Let_def matching_def)
next
  case False
  then show ?thesis
    by (simp add: invalidateCache_def redis_keys_def redis_del_def Let_def matching_def)
qed

subsection \<open>Create\<close>

lemma post_task_created:
  assumes "fst (post_task b env w) = (201, r)"
  shows "\<exists>t. r = Data (Task t) \<and> completed t = Some False
             \<and> tasks (snd (post_task b env w)) = tasks w @ [t]"
  using assms
  by (auto simp add: post_task_def pg_insert_def Let_def
           split: if_splits option.splits sum.splits)

text \<open>
  C10. The create handler reads only title and description: a request that also carries
  a completed field is handled exactly as the request without it, and whenever a record
  is created (status 201) the record returned and stored has completed false.
\<close>

theorem post_task_ignores_completed:
  "post_task (b\<lparr>body_completed := c\<rparr>) env w = post_task b env w \<and>
   (\<forall>r. fst (post_task b env w) = (201, r) \<longrightarrow>
        (\<exists>t. r = Data (Task t) \<and> completed t = Some False
              \<and> tasks (snd (post_task b env w)) = tasks w @ [t]))"
  using post_task_created by (simp add: post_task_def)

theorem post_task_ignores_completed_witness:
  "fst (post_task (buy_milk\<lparr>body_completed := Val True\<rparr>) (calm 5) (initial_world 0)) =
     (201, Data (Task \<lparr>task_id = 9, title = ''Buy milk'', description = Some [],
                       completed = Some False, created_at = 5, updated_at = 5\<rparr>)) \<and>
   tasks (snd (post_task buy_milk (calm 5) (initial_world 0))) =
     tasks (initial_world 0) @
       [\<lparr>task_id = 9, title = ''Buy milk'', description = Some [],
         completed = Some False, created_at = 5, updated_at = 5\<rparr>]"
proof -
  have h: "fst (post_task buy_milk (calm 5) (initial_world 0)) =
      (201, Data (Task \<lparr>task_id = 9, title = ''Buy milk'', description = Some [],
                        completed = Some False, created_at = 5, updated_at = 5\<rparr>))"
    by code_simp
  from post_task_ignores_completed
    [where b = buy_milk and c = "Val True" and env = "calm 5" and w = "initial_world 0"] h
  show ?thesis by auto
qed

subsection \<open>Statistics\<close>

lemma stats_partition:
  "length ts = length (filter (\<lambda>t. completed t = Some True) ts)
             + length (filter (\<lambda>t. completed t = Some False) ts)
             + length (filter (\<lambda>t. completed t = None) ts)"
proof (induction ts)
  case Nil
  show ?case by simp
next
  case (Cons a ts)
  then show ?case by (cases "completed a") auto
qed

lemma get_stats_counts:
  "\<not> store_down env \<Longrightarrow>
   fst (get_stats env w) =
     (200, Data (Stats (length (tasks w))
                       (length (filter (\<lambda>t. completed t = Some True) (tasks w)))
                       (length (filter (\<lambda>t. completed t = Some False) (tasks w)))))"
  by (simp add: get_stats_def pg_stats_def Let_def)

text \<open>
  C3. The claim is that in every reachable state the statistics satisfy
  total = completed + pending. The column \<open>completed\<close> is nullable and the update
  handler writes a JSON null into it, after which the row is counted in the total only:
  from the seeded table, one update of task 1 with \<^verbatim>\<open>{"completed": null}\<close> leads to
  a reachable state whose statistics are total 8, completed 0, pending 7. In general
  the total exceeds the sum by the number of rows whose completed is NULL
  (\<open>stats_partition\<close>).
\<close>

theorem stats_miscount_after_null_completed:
  "reachable world_null_completed \<and>
   fst (handle GET_stats (calm 2) world_null_completed) = (200, Data (Stats 8 0 7))"
proof
  show "reachable world_null_completed"
    unfolding world_null_completed_def by (intro reachable.request reachable.start)
  show "fst (handle GET_stats (calm 2) world_null_completed) = (200, Data (Stats 8 0 7))"
    by code_simp
qed

subsection \<open>Titles\<close>

text \<open>
  C4. The claim is that every record of a reachable state has a non-empty title. The
  create handler rejects an empty title, the update handler only tests
  \<^verbatim>\<open>title !== undefined\<close>: from the seeded table, one update of task 1 with
  \<^verbatim>\<open>{"title": ""}\<close> is answered 200 and leaves task 1 with the empty title.
\<close>

theorem update_stores_empty_title:
  "reachable world_empty_title \<and>
   fst (fst (handle (PUT_task ''1'' (no_fields\<lparr>body_title := Val []\<rparr>)) (calm 1)
               (initial_world 0))) = 200 \<and>
   map (\<lambda>t. (task_id t, title t)) (filter (\<lambda>t. title t = []) (tasks world_empty_title))
     = [(1, [])]"
proof (intro conjI)
  show "reachable world_empty_title"
    unfolding world_empty_title_def by (intro reachable.request reachable.start)
  show "fst (fst (handle (PUT_task ''1'' (no_fields\<lparr>body_title := Val []\<rparr>)) (calm 1)
                    (initial_world 0))) = 200"
    by code_simp
  show "map (\<lambda>t. (task_id t, title t)) (filter (\<lambda>t. title t = []) (tasks world_empty_title))
          = [(1, [])]"
    by code_simp
qed

subsection \<open>Cache failures\<close>

lemma handle_no_redis_error:
  "fst (handle req env w) \<noteq> (st, Error (Message RedisError))"
  "fst (handle req env w) \<noteq> (st, HealthError RedisError)"
  by (cases req; simp add: get_tasks_def get_task_def post_task_def put_task_def delete_task_def
        get_stats_def get_health_def get_root_def Let_def
        split: prod.splits option.splits sum.splits list.splits)+

lemma get_tasks_degraded:
  "\<not> redisConnected w \<or> get_throws env \<Longrightarrow> fst (get_tasks env w) = tasks_from_store env w"
  by (auto simp add: get_tasks_def tasks_from_store_def getFromCache_def redis_get_def
        pg_select_all_def Let_def)

lemma get_task_degraded:
  "\<not> redisConnected w \<or> get_throws env \<Longrightarrow>
   fst (get_task ident env w) = task_from_store ident env w"
  by (auto simp add: get_task_def task_from_store_def getFromCache_def redis_get_def
        pg_select_where_id_def Let_def split: sum.splits list.splits)

lemma write_response_ignores_cache_faults:
  "write_statement req \<noteq> None \<Longrightarrow>
   fst (handle req (env\<lparr>keys_throws := k, del_throws := d\<rparr>) w) = fst (handle req env w)"
  by (cases req; simp add: post_task_def put_task_def delete_task_def pg_insert_def pg_update_def
        pg_delete_def pg_select_where_id_def Let_def
        split: prod.splits option.splits sum.splits list.splits)

text \<open>
  C2. Whatever the request, the world and the faults of the environment, no response
  carries an error thrown by Redis: a response is a success, a validation or not-found
  error, or an error of the Store. When the cache is not connected or GET throws, the
  cache read yields nothing and both read handlers answer exactly what the Store alone
  answers; when SETEX throws the cache write changes nothing, and when KEYS or DEL
  throws the invalidation changes nothing; no helper touches the table; and the response
  to a write does not depend on whether the invalidation throws.
\<close>

theorem cache_failures_absorbed:
  "(\<forall>st. fst (handle req env w) \<noteq> (st, Error (Message RedisError))
        \<and> fst (handle req env w) \<noteq> (st, HealthError RedisError))
   \<and> (\<not> redisConnected w \<or> get_throws env \<longrightarrow>
        fst (getFromCache key env w) = None
        \<and> fst (get_tasks env w) = tasks_from_store env w
        \<and> fst (get_task ident env w) = task_from_store ident env w)
   \<and> (\<not> redisConnected w \<or> setEx_throws env \<longrightarrow>
        redis_db (setInCache key v n env w) = redis_db w)
   \<and> (\<not> redisConnected w \<or> keys_throws env \<or> del_throws env \<longrightarrow>
        redis_db (invalidateCache pattern env w) = redis_db w)
   \<and> tasks (snd (getFromCache key env w)) = tasks w
   \<and> tasks (setInCache key v n env w) = tasks w
   \<and> tasks (invalidateCache pattern env w) = tasks w
   \<and> (write_statement req \<noteq> None \<longrightarrow>
        fst (handle req (env\<lparr>keys_throws := k, del_throws := d\<rparr>) w) = fst (handle req env w))"
  using handle_no_redis_error [of req env w] get_tasks_degraded [of w env]
    get_task_degraded [of w env ident]
    write_response_ignores_cache_faults [where req = req and env = env and k = k and d = d and w = w]
  by (simp add: getFromCache_value setInCache_db invalidateCache_db)

theorem cache_failures_absorbed_witness:
  "fst (getFromCache ''tasks:all'' faulty warm) = None \<and>
   fst (get_tasks faulty warm) = (200, DataCached (Tasks (seed_rows 0)) False) \<and>
   fst (get_task ''2'' faulty warm) = (200, DataCached (Task (seed_rows 0 ! 1)) False) \<and>
   redis_db (setInCache ''tasks:all'' (Tasks []) 60 faulty warm) = redis_db warm \<and>
   redis_db (invalidateCache ''tasks:*'' faulty warm) = redis_db warm \<and>
   fst (handle (POST_task buy_milk) ((calm 5)\<lparr>keys_throws := True, del_throws := False\<rparr>) warm)
     = fst (handle (POST_task buy_milk) (calm 5) warm)"
proof -
  have a: "get_throws faulty" "setEx_throws faulty" "keys_throws faulty" "\<not> store_down faulty"
    by (simp_all add: faulty_def calm_def)
  have b: "tasks_from_store faulty warm = (200, DataCached (Tasks (seed_rows 0)) False)"
    by code_simp
  have c: "task_from_store ''2'' faulty warm = (200, DataCached (Task (seed_rows 0 ! 1)) False)"
    by code_simp
  have d: "write_statement (POST_task buy_milk) \<noteq> None" by simp
  from cache_failures_absorbed [where req = "POST_task buy_milk" and env = faulty and w = warm
      and key = "''tasks:all''" and ident = "''2''" and v = "Tasks []" and n = 60
      and pattern = "''tasks:*''"] a b c
  have 1: "fst (getFromCache ''tasks:all'' faulty warm) = None \<and>
   fst (get_tasks faulty warm) = (200, DataCached (Tasks (seed_rows 0)) False) \<and>
   fst (get_task ''2'' faulty warm) = (200, DataCached (Task (seed_rows 0 ! 1)) False) \<and>
   redis_db (setInCache ''tasks:all'' (Tasks []) 60 faulty warm) = redis_db warm \<and>
   redis_db (invalidateCache ''tasks:*'' faulty warm) = redis_db warm"
    by simp
  from cache_failures_absorbed [where req = "POST_task buy_milk" and env = "calm 5" and w = warm
      and k = True and d = False] d
  have 2: "fst (handle (POST_task buy_milk) ((calm 5)\<lparr>keys_throws := True, del_throws := False\<rparr>) warm)
     = fst (handle (POST_task buy_milk) (calm 5) warm)"
    by blast
  from 1 2 show ?thesis by blast
qed

subsection \<open>Read-through\<close>

lemma scan_mset [simp]: "mset (scan env rows) = mset rows"
  by (simp add: scan_def)

lemma scan_calm [simp]: "scan (calm now) rows = rows"
  by (simp add: scan_def calm_def)



lemma pg_select_all_eq:
  "pg_select_all env w =
    (if store_down env then Inl Connection_failure
     else Inr (order_by_created_at_desc (scan env (tasks w))),
     emit (Query Select_all) w)"
  by (simp add: pg_select_all_def Let_def)

lemma pg_select_where_id_eq:
  "pg_select_where_id st ident env w =
    (if store_down env then Inl Connection_failure
     else (case id_input env ident of Inl e \<Rightarrow> Inl e
           | Inr n \<Rightarrow> Inr (filter (\<lambda>t. task_id t = n) (tasks w))),
     emit (Query st) w)"
  by (simp add: pg_select_where_id_def Let_def split: sum.splits)








subsection \<open>Requests that name no record\<close>

lemma pg_delete_eq:
  "pg_delete ident env w =
    (if store_down env then (Inl Connection_failure, emit (Query Delete) w)
     else (case id_input env ident of
             Inl e \<Rightarrow> (Inl e, emit (Query Delete) w)
           | Inr n \<Rightarrow>
               (Inr (map task_id (filter (\<lambda>t. task_id t = n) (tasks w))),
                (emit (Query Delete) w)\<lparr>tasks := filter (\<lambda>t. task_id t \<noteq> n) (tasks w)\<rparr>)))"
  by (simp add: pg_delete_def Let_def split: sum.splits)

lemma no_match_filter:
  assumes "\<forall>t\<in>set ts. task_id t \<noteq> n"
  shows "filter (\<lambda>t. task_id t = n) ts = []" and "filter (\<lambda>t. task_id t \<noteq> n) ts = ts"
  using assms by (simp_all add: filter_empty_conv filter_id_conv)

text \<open>
  C9 (as amended). When the Store reads the id of a delete request as no id of an
  existing record, the request changes neither the table, the sequence nor the cache,
  and issues no cache command: its only I/O is the DELETE statement and the response.
  The response is 404 when the Store reads the id as an integer (and is reachable); an
  id the Store cannot read as an integer makes it reject the statement, which the
  handler reports as 500. How the Store reads an id is the environment's \<open>id_input\<close>,
  so the statement holds for every version of the server.
\<close>

theorem delete_task_no_match:
  assumes "\<forall>t\<in>set (tasks w). id_input env ident \<noteq> Inr (task_id t)"
  shows "(\<not> store_down env \<and> id_input env ident = Inr n \<longrightarrow>
            fst (delete_task ident env w) = (404, Error Task_not_found))
     \<and> (\<not> store_down env \<and> id_input env ident = Inl e \<longrightarrow>
            fst (delete_task ident env w) = (500, Error (Message (PgError e))))
     \<and> (store_down env \<longrightarrow>
            fst (delete_task ident env w) = (500, Error (Message (PgError Connection_failure))))
     \<and> tasks (snd (delete_task ident env w)) = tasks w
     \<and> tasks_id_seq (snd (delete_task ident env w)) = tasks_id_seq w
     \<and> redis_db (snd (delete_task ident env w)) = redis_db w
     \<and> redisConnected (snd (delete_task ident env w)) = redisConnected w
     \<and> trace (snd (delete_task ident env w)) =
          trace w @ [Query Delete, Send (fst (fst (delete_task ident env w)))]"
proof (cases "store_down env")
  case True
  then show ?thesis by (simp add: delete_task_def pg_delete_eq)
next
  case up: False
  show ?thesis
  proof (cases "id_input env ident")
    case (Inl e')
    with up show ?thesis by (simp add: delete_task_def pg_delete_eq)
  next
    case (Inr m)
    with assms have "\<forall>t\<in>set (tasks w). task_id t \<noteq> m" by auto
    from no_match_filter [OF this] up Inr show ?thesis
      by (auto simp add: delete_task_def pg_delete_eq)
  qed
qed

theorem delete_task_no_match_witness:
  "fst (delete_task ''999'' (calm 5) warm) = (404, Error Task_not_found) \<and>
   tasks (snd (delete_task ''999'' (calm 5) warm)) = tasks warm \<and>
   redis_db (snd (delete_task ''999'' (calm 5) warm)) = redis_db warm \<and>
   trace (snd (delete_task ''999'' (calm 5) warm)) = trace warm @ [Query Delete, Send 404]"
proof -
  have h: "\<forall>t\<in>set (tasks warm). id_input (calm 5) ''999'' \<noteq> Inr (task_id t)"
    by code_simp
  have e: "\<not> store_down (calm 5)" "id_input (calm 5) ''999'' = Inr 999"
    by code_simp+
  from delete_task_no_match [OF h, where n = 999] e
  show ?thesis by simp
qed

theorem delete_task_malformed_id:
  "list_all (\<lambda>t. id_input (calm 5) ''abc'' \<noteq> Inr (task_id t)) (tasks (initial_world 0)) \<and>
   fst (delete_task ''abc'' (calm 5) (initial_world 0)) =
     (500, Error (Message (PgError Invalid_text_representation)))"
  by code_simp

lemma build_updates_empty:
  "build_updates b = [] \<longleftrightarrow>
   body_title b = Undefined \<and> body_description b = Undefined \<and> body_completed b = Undefined"
  by (auto simp add: build_updates_def)

lemma some_match_filter:
  assumes "\<exists>t\<in>set ts. task_id t = n"
  shows "filter (\<lambda>t. task_id t = n) ts \<noteq> []"
  using assms by (auto simp add: filter_empty_conv)

text \<open>
  C5 (as amended). An update request that supplies none of title, description and
  completed never changes the table, the sequence or the cache. The handler first
  looks the id up in the Store, and reports after that one query: 400 when the Store
  reads the id as that of an existing record, 404 when it reads it as an integer that no
  record has, 500 when it cannot read the id as an integer or is unreachable. How the
  Store reads an id is the environment's \<open>id_input\<close>.
\<close>

theorem put_task_no_fields:
  assumes "body_title b = Undefined \<and> body_description b = Undefined
           \<and> body_completed b = Undefined"
  shows "(\<not> store_down env \<and> id_input env ident = Inr n \<and> (\<exists>t\<in>set (tasks w). task_id t = n) \<longrightarrow>
            fst (put_task ident b env w) = (400, Error No_fields_to_update))
     \<and> (\<not> store_down env \<and> id_input env ident = Inr n \<and> (\<forall>t\<in>set (tasks w). task_id t \<noteq> n) \<longrightarrow>
            fst (put_task ident b env w) = (404, Error Task_not_found))
     \<and> (\<not> store_down env \<and> id_input env ident = Inl e \<longrightarrow>
            fst (put_task ident b env w) = (500, Error (Message (PgError e))))
     \<and> (store_down env \<longrightarrow>
            fst (put_task ident b env w) = (500, Error (Message (PgError Connection_failure))))
     \<and> tasks (snd (put_task ident b env w)) = tasks w
     \<and> tasks_id_seq (snd (put_task ident b env w)) = tasks_id_seq w
     \<and> redis_db (snd (put_task ident b env w)) = redis_db w
     \<and> redisConnected (snd (put_task ident b env w)) = redisConnected w
     \<and> trace (snd (put_task ident b env w)) =
          trace w @ [Query Select_id, Send (fst (fst (put_task ident b env w)))]"
proof -
  from assms have u: "build_updates b = []" by (simp add: build_updates_empty)
  show ?thesis
  proof (cases "store_down env")
    case True
    then show ?thesis by (simp add: put_task_def pg_select_where_id_eq)
  next
    case up: False
    show ?thesis
    proof (cases "id_input env ident")
      case (Inl e')
      with up show ?thesis by (simp add: put_task_def pg_select_where_id_eq)
    next
      case (Inr m)
      show ?thesis
      proof (cases "\<exists>t\<in>set (tasks w). task_id t = m")
        case True
        from some_match_filter [OF True] True up Inr u show ?thesis
          by (auto simp add: put_task_def pg_select_where_id_eq)
      next
        case False
        then have "\<forall>t\<in>set (tasks w). task_id t \<noteq> m" by simp
        from no_match_filter(1) [OF this] False up Inr show ?thesis
          by (auto simp add: put_task_def pg_select_where_id_eq)
      qed
    qed
  qed
qed

theorem put_task_no_fields_witness:
  "fst (put_task ''1'' no_fields (calm 5) warm) = (400, Error No_fields_to_update) \<and>
   tasks (snd (put_task ''1'' no_fields (calm 5) warm)) = tasks warm \<and>
   redis_db (snd (put_task ''1'' no_fields (calm 5) warm)) = redis_db warm \<and>
   trace (snd (put_task ''1'' no_fields (calm 5) warm)) = trace warm @ [Query Select_id, Send 400]"
proof -
  have h: "body_title no_fields = Undefined \<and> body_description no_fields = Undefined
           \<and> body_completed no_fields = Undefined"
    by (simp add: no_fields_def)
  have e: "\<not> store_down (calm 5)" "id_input (calm 5) ''1'' = Inr 1"
    "\<exists>t\<in>set (tasks warm). task_id t = 1"
    by code_simp+
  from put_task_no_fields [OF h, where env = "calm 5" and n = 1 and ident = "''1''" and w = warm] e
  show ?thesis by simp
qed

theorem put_task_no_fields_unknown_id:
  "fst (put_task ''999'' no_fields (calm 5) (initial_world 0)) = (404, Error Task_not_found) \<and>
   trace (snd (put_task ''1'' no_fields (calm 5) (initial_world 0))) = [Query Select_id, Send 400]"
  by code_simp

text \<open>
  With the integer input of PostgreSQL 16 and later, \<^verbatim>\<open>0x7\<close> names task 7: the
  delete removes it, and the empty update of it is a validation error.
\<close>

lemma hexadecimal_id:
  "fst (delete_task ''0x7'' (calm 5) (initial_world 0)) = (200, Deleted 7) \<and>
   list_all (\<lambda>t. task_id t \<noteq> 7) (tasks (snd (delete_task ''0x7'' (calm 5) (initial_world 0)))) \<and>
   fst (put_task ''0x7'' no_fields (calm 5) (initial_world 0)) = (400, Error No_fields_to_update)"
  by code_simp

subsection \<open>The primary key and the sequence\<close>

lemma assign_keeps:
  "assign a t = Inr t' \<Longrightarrow> task_id t' = task_id t \<and> created_at t' = created_at t"
  by (induction a t rule: assign.induct) (auto split: sum.splits)

lemma assign_all_keeps:
  "assign_all as t = Inr t' \<Longrightarrow> task_id t' = task_id t \<and> created_at t' = created_at t"
proof (induction as arbitrary: t)
  case Nil
  then show ?case by simp
next
  case (Cons a as)
  then show ?case by (auto split: sum.splits dest: assign_keeps)
qed

lemma update_row_keeps:
  "update_row us now t = Inr t' \<Longrightarrow> task_id t' = task_id t \<and> created_at t' = created_at t"
  by (auto simp add: update_row_def split: sum.splits dest: assign_all_keeps)

lemma update_where_ids:
  assumes "update_where n f ts = Inr (tab, ret)"
    and "\<And>t t'. f t = Inr t' \<Longrightarrow> task_id t' = task_id t"
  shows "map task_id tab = map task_id ts"
  using assms(1)
proof (induction ts arbitrary: tab ret)
  case Nil
  then show ?case by simp
next
  case (Cons t ts)
  then show ?case
    by (auto split: if_splits sum.splits prod.splits dest: assms(2))
qed

lemma ids_issued_map:
  assumes "ids_issued w" and "map task_id ts = map task_id (tasks w)"
    and "tasks_id_seq w \<le> k"
  shows "distinct (map task_id ts) \<and> list_all (\<lambda>t. task_id t < k) ts"
proof -
  from assms(1) have d: "distinct (map task_id (tasks w))"
    and b: "\<forall>i\<in>set (map task_id (tasks w)). i < tasks_id_seq w"
    by (auto simp add: ids_issued_def list_all_iff)
  from b assms(2,3) have "\<forall>i\<in>set (map task_id ts). i < k" by auto
  then have "\<forall>t\<in>set ts. task_id t < k" by simp
  with d assms(2) show ?thesis by (simp add: list_all_iff)
qed

lemma pg_update_ids:
  "map task_id (tasks (snd (pg_update us ident env w))) = map task_id (tasks w)
   \<and> tasks_id_seq (snd (pg_update us ident env w)) = tasks_id_seq w"
  by (auto simp add: pg_update_def Let_def split: sum.splits prod.splits
      dest: update_where_ids update_row_keeps)

lemma put_task_ids:
  "map task_id (tasks (snd (put_task ident b env w))) = map task_id (tasks w)
   \<and> tasks_id_seq (snd (put_task ident b env w)) = tasks_id_seq w"
proof -
  have "\<And>us w1. map task_id (tasks (snd (pg_update us ident env w1))) = map task_id (tasks w1)"
    "\<And>us w1. tasks_id_seq (snd (pg_update us ident env w1)) = tasks_id_seq w1"
    using pg_update_ids by simp_all
  note u = this
  show ?thesis
    apply (simp add: put_task_def pg_select_where_id_eq Let_def split: prod.splits sum.splits)
    apply (intro conjI allI impI)
    apply (metis u emit_simps(1,2) snd_conv)+
    done
qed


lemma post_task_ids:
  "(tasks (snd (post_task b env w)) = tasks w
    \<or> (\<exists>row. tasks (snd (post_task b env w)) = tasks w @ [row]
              \<and> task_id row = tasks_id_seq w
              \<and> tasks_id_seq (snd (post_task b env w)) = tasks_id_seq w + 1))
   \<and> tasks_id_seq w \<le> tasks_id_seq (snd (post_task b env w))"
  by (auto simp add: post_task_def pg_insert_def Let_def split: option.splits sum.splits)

lemma delete_task_ids:
  "(tasks (snd (delete_task ident env w)) = tasks w
    \<or> (\<exists>n. tasks (snd (delete_task ident env w)) = filter (\<lambda>t. task_id t \<noteq> n) (tasks w)))
   \<and> tasks_id_seq (snd (delete_task ident env w)) = tasks_id_seq w"
  by (auto simp add: delete_task_def pg_delete_eq split: sum.splits list.splits)

lemma read_only:
  "tasks (snd (get_tasks env w)) = tasks w \<and> tasks_id_seq (snd (get_tasks env w)) = tasks_id_seq w"
  "tasks (snd (get_task ident env w)) = tasks w
   \<and> tasks_id_seq (snd (get_task ident env w)) = tasks_id_seq w"
  "tasks (snd (get_stats env w)) = tasks w \<and> tasks_id_seq (snd (get_stats env w)) = tasks_id_seq w"
  "tasks (snd (get_health env w)) = tasks w
   \<and> tasks_id_seq (snd (get_health env w)) = tasks_id_seq w"
proof -
  have g: "\<And>k r w1. getFromCache k env w = (r, w1) \<Longrightarrow> tasks w1 = tasks w \<and> tasks_id_seq w1 = tasks_id_seq w"
    by (metis getFromCache_frame(1,2) snd_conv)
  show "tasks (snd (get_tasks env w)) = tasks w \<and> tasks_id_seq (snd (get_tasks env w)) = tasks_id_seq w"
    by (auto simp add: get_tasks_def pg_select_all_eq split: prod.splits option.splits dest: g)
  show "tasks (snd (get_task ident env w)) = tasks w
   \<and> tasks_id_seq (snd (get_task ident env w)) = tasks_id_seq w"
    by (auto simp add: get_task_def pg_select_where_id_eq split: prod.splits option.splits sum.splits list.splits dest: g)
  show "tasks (snd (get_stats env w)) = tasks w \<and> tasks_id_seq (snd (get_stats env w)) = tasks_id_seq w"
    by (simp add: get_stats_def pg_stats_def Let_def)
  show "tasks (snd (get_health env w)) = tasks w
   \<and> tasks_id_seq (snd (get_health env w)) = tasks_id_seq w"
    by (simp add: get_health_def pg_now_def redis_ping_def Let_def)
qed


lemma handle_ids_issued:
  assumes "ids_issued w"
  shows "ids_issued (snd (handle req env w))"
proof (cases req)
  case (POST_task b)
  from assms have d: "distinct (map task_id (tasks w))"
    and l: "\<forall>t\<in>set (tasks w). task_id t < tasks_id_seq w"
    by (auto simp add: ids_issued_def list_all_iff)
  from post_task_ids [of b env w] d l have "ids_issued (snd (post_task b env w))"
    by (fastforce simp add: ids_issued_def list_all_iff)
  with POST_task show ?thesis by simp
next
  case (PUT_task ident b)
  from ids_issued_map [OF assms, of "tasks (snd (put_task ident b env w))" "tasks_id_seq w"]
    put_task_ids [of ident b env w]
  have "ids_issued (snd (put_task ident b env w))" by (simp add: ids_issued_def)
  with PUT_task show ?thesis by simp
next
  case (DELETE_task ident)
  from delete_task_ids [of ident env w]
  have q: "tasks_id_seq (snd (delete_task ident env w)) = tasks_id_seq w"
    and d: "tasks (snd (delete_task ident env w)) = tasks w
      \<or> (\<exists>n. tasks (snd (delete_task ident env w)) = filter (\<lambda>t. task_id t \<noteq> n) (tasks w))"
    by simp_all
  from d have "\<exists>P. tasks (snd (delete_task ident env w)) = filter P (tasks w)"
  proof
    assume "tasks (snd (delete_task ident env w)) = tasks w"
    then have "tasks (snd (delete_task ident env w)) = filter (\<lambda>t. True) (tasks w)" by simp
    then show ?thesis by (rule exI [of _ "\<lambda>t. True"])
  next
    assume "\<exists>n. tasks (snd (delete_task ident env w)) = filter (\<lambda>t. task_id t \<noteq> n) (tasks w)"
    then show ?thesis by blast
  qed
  then obtain P where p: "tasks (snd (delete_task ident env w)) = filter P (tasks w)" ..
  from assms have "ids_issued (snd (delete_task ident env w))"
    by (simp add: ids_issued_def p q list_all_iff distinct_map_filter)
  with DELETE_task show ?thesis by simp
qed (use assms in \<open>simp_all add: ids_issued_def read_only get_root_def\<close>)

lemma initial_ids_issued: "ids_issued (initial_world t0)"
  by (simp add: ids_issued_def initial_world_def seed_rows_def seed_def)

lemma reachable_ids_issued: "reachable w \<Longrightarrow> ids_issued w"
proof (induction rule: reachable.induct)
  case (start t0)
  show ?case by (rule initial_ids_issued)
next
  case (request w req env)
  then show ?case by (simp add: handle_ids_issued)
next
  case (redis_connect w)
  then show ?case by (simp add: ids_issued_def)
next
  case (redis_error w)
  then show ?case by (simp add: ids_issued_def)
qed



subsection \<open>Create, in full\<close>

lemma varchar255_eq:
  "varchar255 s = (if too_long s then Inl String_data_right_truncation else Inr (take 255 s))"
  by (simp add: varchar255_def too_long_def)










text \<open>
  A title with NUL is refused as well, and a refused create takes no value from the
  sequence: the create that follows gets the id 9.
\<close>

lemma refused_create_keeps_sequence:
  "fst (post_task nul_title (calm 5) (initial_world 0)) =
     (500, Error (Message (PgError Character_not_in_repertoire))) \<and>
   fst (post_task buy_milk (calm 6) (snd (post_task long_title (calm 5) (initial_world 0)))) =
     (201, Data (Task \<lparr>task_id = 9, title = ''Buy milk'', description = Some [],
                       completed = Some False, created_at = 6, updated_at = 6\<rparr>))"
  by code_simp

subsection \<open>Update\<close>

lemma update_where_none:
  "\<forall>r\<in>set ts. task_id r \<noteq> n \<Longrightarrow> update_where n f ts = Inr (ts, [])"
  by (induction ts) auto

lemma update_where_unique:
  assumes "distinct (map task_id ts)" and "t \<in> set ts" and "task_id t = n"
  shows "update_where n f ts =
    (case f t of Inl e \<Rightarrow> Inl e
     | Inr t' \<Rightarrow> Inr (map (\<lambda>r. if task_id r = n then t' else r) ts, [t']))"
  using assms
proof (induction ts)
  case Nil
  then show ?case by simp
next
  case (Cons a ts)
  show ?case
  proof (cases "a = t")
    case True
    with Cons.prems have "task_id t \<notin> task_id ` set ts" by simp
    with Cons.prems(3) have "\<forall>r\<in>set ts. task_id r \<noteq> n" by (metis imageI)
    then have "update_where n f ts = Inr (ts, [])"
      and "map (\<lambda>r. if task_id r = n then t' else r) ts = ts" for t'
      by (simp_all add: update_where_none map_idI)
    with True Cons.prems(3) show ?thesis by (simp split: sum.splits)
  next
    case False
    with Cons.prems have "t \<in> set ts" and "task_id a \<noteq> n" and "distinct (map task_id ts)"
      by auto
    with Cons.IH Cons.prems(3) show ?thesis by (simp split: sum.splits)
  qed
qed

lemma refused_build_updates:
  "list_ex refused (build_updates b) =
     (text_rejected (body_title b) \<or> text_rejected (body_description b))"
  by (cases "body_title b"; cases "body_description b"; cases "body_completed b")
     (simp_all add: build_updates_def text_rejected_def nul_in_def)

lemma accepted_build_updates:
  assumes "\<not> title_rejected (body_title b)"
  shows "\<exists>us. coerce_all (build_updates b) = Inr us \<and>
    (\<forall>t. assign_all us t =
      Inr (t\<lparr>title := (case body_title b of Val s \<Rightarrow> take 255 s | _ \<Rightarrow> title t),
             description := (case body_description b of Undefined \<Rightarrow> description t
                             | Null \<Rightarrow> None | Val d \<Rightarrow> Some d),
             completed := (case body_completed b of Undefined \<Rightarrow> completed t
                           | Null \<Rightarrow> None | Val c \<Rightarrow> Some c)\<rparr>))"
  using assms
  by (cases "body_title b"; cases "body_description b"; cases "body_completed b")
     (simp_all add: build_updates_def title_rejected_def coerce_title_def varchar255_eq)

lemma rejected_build_updates:
  assumes "title_rejected (body_title b)" and "\<not> text_rejected (body_title b)"
  shows "(\<exists>e. coerce_all (build_updates b) = Inl e)
    \<or> (\<exists>us. coerce_all (build_updates b) = Inr us \<and> (\<forall>t now. \<exists>e. update_row us now t = Inl e))"
  using assms
  by (cases "body_title b"; cases "body_description b"; cases "body_completed b")
     (auto simp add: build_updates_def title_rejected_def text_rejected_def coerce_title_def
        varchar255_eq update_row_def)

lemma pg_update_eq:
  "pg_update us ident env w =
    (if store_down env then (Inl Connection_failure, emit (Query Update) w)
     else if list_ex refused us then (Inl Character_not_in_repertoire, emit (Query Update) w)
     else (case id_input env ident of
             Inl e \<Rightarrow> (Inl e, emit (Query Update) w)
           | Inr n \<Rightarrow>
               (case coerce_all us of
                  Inl e \<Rightarrow> (Inl e, emit (Query Update) w)
                | Inr us' \<Rightarrow>
                    (case update_where n (update_row us' (db_now env)) (tasks w) of
                       Inl e \<Rightarrow> (Inl e, emit (Query Update) w)
                     | Inr (tab, ret) \<Rightarrow> (Inr ret, (emit (Query Update) w)\<lparr>tasks := tab\<rparr>)))))"
  by (simp add: pg_update_def Let_def split: sum.splits prod.splits)

lemma build_updates_nonempty:
  "body_title b \<noteq> Undefined \<or> body_description b \<noteq> Undefined \<or> body_completed b \<noteq> Undefined
   \<Longrightarrow> build_updates b \<noteq> []"
  by (simp add: build_updates_empty)

lemma put_task_found:
  assumes "\<not> store_down env" and "id_input env ident = Inr n"
    and "t \<in> set (tasks w)" and "task_id t = n"
    and "body_title b \<noteq> Undefined \<or> body_description b \<noteq> Undefined
         \<or> body_completed b \<noteq> Undefined"
  shows "put_task ident b env w =
    (case pg_update (build_updates b) ident env (emit (Query Select_id) w) of
       (Inl error, w2) \<Rightarrow> send 500 (Error (Message (PgError error))) w2
     | (Inr rows, w2) \<Rightarrow>
         send 200 (Data (first_row rows)) (invalidateCache ''tasks:*'' env w2))"
proof -
  from assms(3,4) have "\<exists>r\<in>set (tasks w). task_id r = n" by blast
  then have found: "filter (\<lambda>r. task_id r = n) (tasks w) \<noteq> []" by (rule some_match_filter)
  have nonempty: "build_updates b \<noteq> []" using assms(5) by (rule build_updates_nonempty)
  show ?thesis
    using assms(1,2) found nonempty
    by (simp add: put_task_def pg_select_where_id_eq Let_def)
qed

lemma put_task_accepted:
  assumes "distinct (map task_id (tasks w))" and "\<not> store_down env"
    and "id_input env ident = Inr n" and "t \<in> set (tasks w)" and "task_id t = n"
    and "body_title b \<noteq> Undefined \<or> body_description b \<noteq> Undefined
         \<or> body_completed b \<noteq> Undefined"
    and "\<not> title_rejected (body_title b)" and "\<not> text_rejected (body_description b)"
  shows "fst (put_task ident b env w) =
      (200, Data (Task (t\<lparr>title := (case body_title b of Val s \<Rightarrow> take 255 s | _ \<Rightarrow> title t),
               description := (case body_description b of Undefined \<Rightarrow> description t
                               | Null \<Rightarrow> None | Val d \<Rightarrow> Some d),
               completed := (case body_completed b of Undefined \<Rightarrow> completed t
                             | Null \<Rightarrow> None | Val c \<Rightarrow> Some c),
               updated_at := db_now env\<rparr>)))"
    and "tasks (snd (put_task ident b env w)) =
      map (\<lambda>r. if task_id r = n
                then t\<lparr>title := (case body_title b of Val s \<Rightarrow> take 255 s | _ \<Rightarrow> title t),
               description := (case body_description b of Undefined \<Rightarrow> description t
                               | Null \<Rightarrow> None | Val d \<Rightarrow> Some d),
               completed := (case body_completed b of Undefined \<Rightarrow> completed t
                             | Null \<Rightarrow> None | Val c \<Rightarrow> Some c),
               updated_at := db_now env\<rparr>
                else r) (tasks w)"
proof -
  let ?t' = "t\<lparr>title := (case body_title b of Val s \<Rightarrow> take 255 s | _ \<Rightarrow> title t),
               description := (case body_description b of Undefined \<Rightarrow> description t
                               | Null \<Rightarrow> None | Val d \<Rightarrow> Some d),
               completed := (case body_completed b of Undefined \<Rightarrow> completed t
                             | Null \<Rightarrow> None | Val c \<Rightarrow> Some c),
               updated_at := db_now env\<rparr>"
  from assms(7) have no_nul: "\<not> text_rejected (body_title b)"
    by (cases "body_title b") (simp_all add: title_rejected_def text_rejected_def)
  with assms(8) have ok: "\<not> list_ex refused (build_updates b)"
    by (simp add: refused_build_updates)
  from accepted_build_updates [OF assms(7)] obtain us where
    us: "coerce_all (build_updates b) = Inr us" and row: "update_row us (db_now env) t = Inr ?t'"
    by (auto simp add: update_row_def)
  have upd: "update_where n (update_row us (db_now env)) (tasks w) =
      Inr (map (\<lambda>r. if task_id r = n then ?t' else r) (tasks w), [?t'])"
    using update_where_unique [OF assms(1,4,5), of "update_row us (db_now env)"] row by simp
  note shape = put_task_found [OF assms(2,3,4,5,6)]
  show "fst (put_task ident b env w) = (200, Data (Task ?t'))"
    using assms(2,3) ok us upd by (simp add: shape pg_update_eq)
  show "tasks (snd (put_task ident b env w)) =
      map (\<lambda>r. if task_id r = n then ?t' else r) (tasks w)"
    using assms(2,3) ok us upd by (simp add: shape pg_update_eq)
qed

lemma put_task_refused:
  assumes "distinct (map task_id (tasks w))" and "\<not> store_down env"
    and "id_input env ident = Inr n" and "t \<in> set (tasks w)" and "task_id t = n"
    and "body_title b \<noteq> Undefined \<or> body_description b \<noteq> Undefined
         \<or> body_completed b \<noteq> Undefined"
    and "title_rejected (body_title b) \<or> text_rejected (body_description b)"
  shows "\<exists>e. put_task ident b env w =
      ((500, Error (Message (PgError e))), emit (Send 500) (emit (Query Update) (emit (Query Select_id) w)))"
proof -
  note shape = put_task_found [OF assms(2,3,4,5,6)]
  have "\<exists>e. pg_update (build_updates b) ident env (emit (Query Select_id) w) =
      (Inl e, emit (Query Update) (emit (Query Select_id) w))"
  proof (cases "list_ex refused (build_updates b)")
    case True
    with assms(2) show ?thesis by (simp add: pg_update_eq)
  next
    case False
    with assms(7) have rej: "title_rejected (body_title b)"
      and clean: "\<not> text_rejected (body_title b)"
      by (auto simp add: refused_build_updates)
    from rejected_build_updates [OF rej clean] show ?thesis
    proof
      assume "\<exists>e. coerce_all (build_updates b) = Inl e"
      with False assms(2,3) show ?thesis by (auto simp add: pg_update_eq)
    next
      assume "\<exists>us. coerce_all (build_updates b) = Inr us
        \<and> (\<forall>t now. \<exists>e. update_row us now t = Inl e)"
      then obtain us e where us: "coerce_all (build_updates b) = Inr us"
        and e: "update_row us (db_now env) t = Inl e" by blast
      have "update_where n (update_row us (db_now env)) (tasks w) = Inl e"
        using update_where_unique [OF assms(1,4,5), of "update_row us (db_now env)"] e by simp
      with False assms(2,3) us show ?thesis by (simp add: pg_update_eq)
    qed
  qed
  then show ?thesis by (auto simp add: shape send_def)
qed

text \<open>
  C6 (as amended). Take an update request that names an existing record and supplies at
  least one field, on a reachable Store. When the Store takes the values (no NUL in
  title or description; the title, when supplied, not null and fitting
  \<^verbatim>\<open>VARCHAR(255)\<close>), the answer is 200 with the new version of the record: each
  supplied field has the supplied value (the title cut to 255 characters when only
  spaces exceed them), each field not supplied keeps its value, id and created_at are
  unchanged, every other row of the table is unchanged, and updated_at is the Store's
  clock reading of this request; it is later than before exactly when that reading is.
  When the Store does not take the values, the answer is 500 with the Store's error and
  neither the table nor the cache changes.
\<close>

theorem put_task_updates:
  assumes "reachable w" and "\<not> store_down env"
    and "id_input env ident = Inr n" and "t \<in> set (tasks w)" and "task_id t = n"
    and "body_title b \<noteq> Undefined \<or> body_description b \<noteq> Undefined
         \<or> body_completed b \<noteq> Undefined"
  shows "(\<not> title_rejected (body_title b) \<and> \<not> text_rejected (body_description b) \<longrightarrow>
      (\<exists>t'. fst (put_task ident b env w) = (200, Data (Task t'))
         \<and> tasks (snd (put_task ident b env w)) =
             map (\<lambda>r. if task_id r = n then t' else r) (tasks w)
         \<and> title t' = (case body_title b of Val s \<Rightarrow> take 255 s | _ \<Rightarrow> title t)
         \<and> (\<forall>s. body_title b = Val s \<and> length s \<le> 255 \<longrightarrow> title t' = s)
         \<and> description t' = (case body_description b of Undefined \<Rightarrow> description t
                               | Null \<Rightarrow> None | Val d \<Rightarrow> Some d)
         \<and> completed t' = (case body_completed b of Undefined \<Rightarrow> completed t
                             | Null \<Rightarrow> None | Val c \<Rightarrow> Some c)
         \<and> task_id t' = task_id t \<and> created_at t' = created_at t
         \<and> updated_at t' = db_now env
         \<and> (updated_at t < updated_at t') = (updated_at t < db_now env)))
     \<and> (title_rejected (body_title b) \<or> text_rejected (body_description b) \<longrightarrow>
          (\<exists>e. fst (put_task ident b env w) = (500, Error (Message (PgError e))))
          \<and> tasks (snd (put_task ident b env w)) = tasks w
          \<and> tasks_id_seq (snd (put_task ident b env w)) = tasks_id_seq w
          \<and> redis_db (snd (put_task ident b env w)) = redis_db w)"
proof (intro conjI impI)
  let ?t' = "t\<lparr>title := (case body_title b of Val s \<Rightarrow> take 255 s | _ \<Rightarrow> title t),
               description := (case body_description b of Undefined \<Rightarrow> description t
                               | Null \<Rightarrow> None | Val d \<Rightarrow> Some d),
               completed := (case body_completed b of Undefined \<Rightarrow> completed t
                             | Null \<Rightarrow> None | Val c \<Rightarrow> Some c),
               updated_at := db_now env\<rparr>"
  from reachable_ids_issued [OF assms(1)] have d: "distinct (map task_id (tasks w))"
    by (simp add: ids_issued_def)
  { assume ok: "\<not> title_rejected (body_title b) \<and> \<not> text_rejected (body_description b)"
    then have ok1: "\<not> title_rejected (body_title b)"
      and ok2: "\<not> text_rejected (body_description b)" by blast+
    have resp: "fst (put_task ident b env w) = (200, Data (Task ?t'))"
      by (rule put_task_accepted(1) [OF d assms(2,3,4,5,6) ok1 ok2])
    have tab: "tasks (snd (put_task ident b env w)) =
        map (\<lambda>r. if task_id r = n then ?t' else r) (tasks w)"
      by (rule put_task_accepted(2) [OF d assms(2,3,4,5,6) ok1 ok2])
    show "\<exists>t'. fst (put_task ident b env w) = (200, Data (Task t'))
         \<and> tasks (snd (put_task ident b env w)) =
             map (\<lambda>r. if task_id r = n then t' else r) (tasks w)
         \<and> title t' = (case body_title b of Val s \<Rightarrow> take 255 s | _ \<Rightarrow> title t)
         \<and> (\<forall>s. body_title b = Val s \<and> length s \<le> 255 \<longrightarrow> title t' = s)
         \<and> description t' = (case body_description b of Undefined \<Rightarrow> description t
                               | Null \<Rightarrow> None | Val d \<Rightarrow> Some d)
         \<and> completed t' = (case body_completed b of Undefined \<Rightarrow> completed t
                             | Null \<Rightarrow> None | Val c \<Rightarrow> Some c)
         \<and> task_id t' = task_id t \<and> created_at t' = created_at t
         \<and> updated_at t' = db_now env
         \<and> (updated_at t < updated_at t') = (updated_at t < db_now env)"
      using resp tab by (intro exI [of _ ?t']) auto }
  { assume bad: "title_rejected (body_title b) \<or> text_rejected (body_description b)"
    from put_task_refused [OF d assms(2,3,4,5,6) bad] obtain e where
      e: "put_task ident b env w =
        ((500, Error (Message (PgError e))),
         emit (Send 500) (emit (Query Update) (emit (Query Select_id) w)))"
      by blast
    show "\<exists>e. fst (put_task ident b env w) = (500, Error (Message (PgError e)))"
      using e by simp
    show "tasks (snd (put_task ident b env w)) = tasks w" using e by simp
    show "tasks_id_seq (snd (put_task ident b env w)) = tasks_id_seq w" using e by simp
    show "redis_db (snd (put_task ident b env w)) = redis_db w" using e by simp }
qed

theorem put_task_updates_witness:
  "fst (put_task ''1'' done_with_notes (calm 5) warm) =
     (200, Data (Task \<lparr>task_id = 1, title = ''Dockeriser le frontend'',
                       description = Some ''notes'', completed = Some True,
                       created_at = 0, updated_at = 5\<rparr>)) \<and>
   fst (fst (put_task ''1'' nul_description (calm 5) warm)) = 500 \<and>
   tasks (snd (put_task ''1'' nul_description (calm 5) warm)) = tasks warm \<and>
   redis_db (snd (put_task ''1'' nul_description (calm 5) warm)) = redis_db warm"
proof -
  have r: "reachable warm"
    unfolding warm_def connected_def
    by (intro reachable.request reachable.redis_connect reachable.start)
  have e: "\<not> store_down (calm 5)" "id_input (calm 5) ''1'' = Inr 1" "db_now (calm 5) = 5"
    by code_simp+
  have t: "hd (tasks warm) \<in> set (tasks warm)" "task_id (hd (tasks warm)) = 1"
    "title (hd (tasks warm)) = ''Dockeriser le frontend''" "created_at (hd (tasks warm)) = 0"
    by code_simp+
  have b: "body_title done_with_notes = Undefined" "body_description done_with_notes = Val ''notes''"
    "body_completed done_with_notes = Val True"
    "\<not> title_rejected (body_title done_with_notes)"
    "\<not> text_rejected (body_description done_with_notes)"
    by code_simp+
  have c: "body_description nul_description \<noteq> Undefined"
    "text_rejected (body_description nul_description)"
    by code_simp+
  from put_task_updates [OF r e(1,2) t(1,2), of done_with_notes] b e(3) t(2,3,4)
  have "\<exists>t'. fst (put_task ''1'' done_with_notes (calm 5) warm) = (200, Data (Task t'))
     \<and> title t' = ''Dockeriser le frontend'' \<and> description t' = Some ''notes''
     \<and> completed t' = Some True \<and> task_id t' = 1 \<and> created_at t' = 0 \<and> updated_at t' = 5"
    by auto
  then obtain t' where t': "fst (put_task ''1'' done_with_notes (calm 5) warm) = (200, Data (Task t'))"
     "title t' = ''Dockeriser le frontend''" "description t' = Some ''notes''"
     "completed t' = Some True" "task_id t' = 1" "created_at t' = 0" "updated_at t' = 5"
    by blast
  then have "t' = \<lparr>task_id = 1, title = ''Dockeriser le frontend'',
                       description = Some ''notes'', completed = Some True,
                       created_at = 0, updated_at = 5\<rparr>"
    by (cases t') simp
  with t'(1) have 1: "fst (put_task ''1'' done_with_notes (calm 5) warm) =
     (200, Data (Task \<lparr>task_id = 1, title = ''Dockeriser le frontend'',
                       description = Some ''notes'', completed = Some True,
                       created_at = 0, updated_at = 5\<rparr>))" by simp
  from put_task_updates [OF r e(1,2) t(1,2), of nul_description] c
  have 2: "fst (fst (put_task ''1'' nul_description (calm 5) warm)) = 500 \<and>
   tasks (snd (put_task ''1'' nul_description (calm 5) warm)) = tasks warm \<and>
   redis_db (snd (put_task ''1'' nul_description (calm 5) warm)) = redis_db warm"
    by auto
  from 1 2 show ?thesis by blast
qed

theorem put_task_long_title:
  "body_title long_title = Val (replicate 256 (CHR ''a'')) \<and>
   fst (put_task ''1'' long_title (calm 5) (initial_world 0)) =
     (500, Error (Message (PgError String_data_right_truncation))) \<and>
   tasks (snd (put_task ''1'' long_title (calm 5) (initial_world 0))) = tasks (initial_world 0) \<and>
   fst (put_task ''1'' null_title (calm 5) (initial_world 0)) =
     (500, Error (Message (PgError Not_null_violation))) \<and>
   tasks (snd (put_task ''1'' null_title (calm 5) (initial_world 0))) = tasks (initial_world 0) \<and>
   map (\<lambda>t. (task_id t, updated_at t)) (filter (\<lambda>t. task_id t = 1) (tasks (initial_world 0)))
     = [(1, 0)] \<and>
   fst (put_task ''1'' done_with_notes (calm 0) (initial_world 0)) =
     (200, Data (Task \<lparr>task_id = 1, title = ''Dockeriser le frontend'',
                       description = Some ''notes'', completed = Some True,
                       created_at = 0, updated_at = 0\<rparr>))"
  by code_simp

subsection \<open>Writes and the cache\<close>

lemma glob_star: "glob_match ''*'' s"
  by (induction s) simp_all

lemma glob_tasks: "glob_match ''tasks:*'' (''tasks:'' @ s)"
  using glob_star [of s] by (cases s) simp_all

lemma get_tasks_uncached:
  assumes "fst (getFromCache ''tasks:all'' env w) = None"
  shows "fst (get_tasks env w) = tasks_from_store env w"
proof -
  obtain w1 where g: "getFromCache ''tasks:all'' env w = (None, w1)"
    using assms by (cases "getFromCache ''tasks:all'' env w") simp
  then have w1: "w1 = snd (getFromCache ''tasks:all'' env w)" by simp
  show ?thesis
    by (simp add: get_tasks_def g pg_select_all_eq tasks_from_store_def) (simp add: w1)
qed

lemma get_task_uncached:
  assumes "fst (getFromCache (''tasks:'' @ ident) env w) = None"
  shows "fst (get_task ident env w) = task_from_store ident env w"
proof -
  obtain w1 where g: "getFromCache (''tasks:'' @ ident) env w = (None, w1)"
    using assms by (cases "getFromCache (''tasks:'' @ ident) env w") simp
  then have w1: "tasks w1 = tasks w" by (metis getFromCache_frame(1) snd_conv)
  note g = g [simplified]
  show ?thesis
    by (simp add: get_task_def g pg_select_where_id_eq task_from_store_def w1
          split: sum.splits list.splits)
qed

lemma no_live_match_miss:
  assumes "matching p env w = []" and "glob_match p k" and "cache_now env \<le> cache_now env2"
  shows "fst (getFromCache k env2 w) = None"
proof -
  have "map_of (filter (live (cache_now env2)) (redis_db w)) k = None"
  proof (rule ccontr)
    assume "map_of (filter (live (cache_now env2)) (redis_db w)) k \<noteq> None"
    then obtain v where "map_of (filter (live (cache_now env2)) (redis_db w)) k = Some v"
      by blast
    then have "(k, v) \<in> set (filter (live (cache_now env2)) (redis_db w))"
      by (rule map_of_SomeD)
    then have m: "(k, v) \<in> set (redis_db w)" and l: "live (cache_now env2) (k, v)"
      by simp_all
    from l assms(3) have "live (cache_now env) (k, v)" by (simp add: live_def)
    with m assms(2) have "k \<in> set (matching p env w)"
      by (force simp add: matching_def)
    with assms(1) show False by simp
  qed
  then show ?thesis by (simp add: getFromCache_value)
qed

lemma invalidateCache_clears:
  assumes "redisConnected w" and "\<not> keys_throws env" and "\<not> del_throws env"
  shows "matching p env (invalidateCache p env w) = []"
proof -
  have db: "redis_db (invalidateCache p env w) =
      filter (\<lambda>e. fst e \<notin> set (matching p env w)) (redis_db w)"
    using assms by (simp add: invalidateCache_db)
  show ?thesis
    unfolding matching_def [of p env "invalidateCache p env w"] db
    by (auto simp add: filter_empty_conv matching_def)
qed

lemma matching_emit [simp]: "matching p env (emit e w) = matching p env w"
  by (simp add: matching_def)


lemma post_task_success:
  assumes "fst (post_task b env w) = (st, r)" and "st = 200 \<or> st = 201"
  shows "\<exists>w1. snd (post_task b env w) = emit (Send st) (invalidateCache ''tasks:*'' env w1)
     \<and> trace w1 = trace w @ [Query Insert]
     \<and> redis_db w1 = redis_db w \<and> redisConnected w1 = redisConnected w"
  using assms
  by (auto simp add: post_task_def pg_insert_def Let_def
      split: if_splits option.splits sum.splits)

lemma delete_task_success:
  assumes "fst (delete_task ident env w) = (st, r)" and "st = 200 \<or> st = 201"
  shows "\<exists>w1. snd (delete_task ident env w) = emit (Send st) (invalidateCache ''tasks:*'' env w1)
     \<and> trace w1 = trace w @ [Query Delete]
     \<and> redis_db w1 = redis_db w \<and> redisConnected w1 = redisConnected w"
  using assms
  by (auto simp add: delete_task_def pg_delete_eq split: if_splits sum.splits list.splits)

lemma put_task_success:
  assumes "fst (put_task ident b env w) = (st, r)" and "st = 200 \<or> st = 201"
  shows "\<exists>w1. snd (put_task ident b env w) = emit (Send st) (invalidateCache ''tasks:*'' env w1)
     \<and> trace w1 = trace w @ [Query Select_id, Query Update]
     \<and> redis_db w1 = redis_db w \<and> redisConnected w1 = redisConnected w"
  using assms
  by (auto simp add: put_task_def pg_select_where_id_eq pg_update_eq Let_def
      split: if_splits sum.splits prod.splits)

lemma write_success:
  assumes "write_statement req = Some q" and "fst (handle req env w) = (st, r)"
    and "st = 200 \<or> st = 201"
  shows "\<exists>w1 before. snd (handle req env w) = emit (Send st) (invalidateCache ''tasks:*'' env w1)
     \<and> trace w1 = trace w @ before @ [Query q]
     \<and> (\<forall>e\<in>set before. e = Query Select_id)
     \<and> redis_db w1 = redis_db w \<and> redisConnected w1 = redisConnected w"
proof (cases req)
  case (POST_task b)
  with assms post_task_success [of b env w st r] obtain w1 where
    "snd (handle req env w) = emit (Send st) (invalidateCache ''tasks:*'' env w1)"
    "trace w1 = trace w @ [] @ [Query q]" "\<forall>e\<in>set []. e = Query Select_id"
    "redis_db w1 = redis_db w \<and> redisConnected w1 = redisConnected w"
    by auto
  then show ?thesis by blast
next
  case (PUT_task ident b)
  with assms put_task_success [of ident b env w st r] obtain w1 where
    "snd (handle req env w) = emit (Send st) (invalidateCache ''tasks:*'' env w1)"
    "trace w1 = trace w @ [Query Select_id] @ [Query q]"
    "\<forall>e\<in>set [Query Select_id]. e = Query Select_id"
    "redis_db w1 = redis_db w \<and> redisConnected w1 = redisConnected w"
    by auto
  then show ?thesis by blast
next
  case (DELETE_task ident)
  with assms delete_task_success [of ident env w st r] obtain w1 where
    "snd (handle req env w) = emit (Send st) (invalidateCache ''tasks:*'' env w1)"
    "trace w1 = trace w @ [] @ [Query q]" "\<forall>e\<in>set []. e = Query Select_id"
    "redis_db w1 = redis_db w \<and> redisConnected w1 = redisConnected w"
    by auto
  then show ?thesis by blast
qed (use assms in simp_all)

lemma invalidateCache_events:
  "\<exists>inv. trace (invalidateCache ''tasks:*'' env w) = trace w @ inv
        \<and> (\<forall>e\<in>set inv. invalidation_event e)"
  by (simp add: invalidateCache_trace)

text \<open>
  C1 (as amended). A write request that is answered 200 or 201 has issued, in this
  order: its Store statement (after the existence lookup, for an update), then the
  commands of the cache invalidation (none when the cache is not connected; KEYS alone
  when KEYS throws or finds nothing; KEYS and DEL otherwise), and last the response.
  When the cache is connected and neither KEYS nor DEL throws, no unexpired key matching
  \<^verbatim>\<open>tasks:*\<close> is left, and a list or get-by-id that follows (at a cache time that is
  not earlier) is answered from the Store, so it reflects the new state. When the
  invalidation is skipped or fails, nothing is promised about the reads that follow.
\<close>

theorem write_invalidates_before_response:
  assumes "write_statement req = Some q" and "handle req env w = ((st, r), w')"
    and "st = 200 \<or> st = 201"
  shows "(\<exists>before inv. trace w' = trace w @ before @ [Query q] @ inv @ [Send st]
            \<and> (\<forall>e\<in>set before. e = Query Select_id)
            \<and> (\<forall>e\<in>set inv. invalidation_event e))
     \<and> (redisConnected w \<and> \<not> keys_throws env \<and> \<not> del_throws env \<longrightarrow>
          matching ''tasks:*'' env w' = []
          \<and> (\<forall>env2. cache_now env \<le> cache_now env2 \<longrightarrow>
                fst (handle GET_tasks env2 w') = tasks_from_store env2 w'
                \<and> (\<forall>ident. fst (handle (GET_task ident) env2 w') = task_from_store ident env2 w')))"
proof -
  from assms(2) have f: "fst (handle req env w) = (st, r)" and s: "snd (handle req env w) = w'"
    by simp_all
  from write_success [OF assms(1) f assms(3)] s obtain w1 before where
    w': "w' = emit (Send st) (invalidateCache ''tasks:*'' env w1)"
    and t1: "trace w1 = trace w @ before @ [Query q]"
    and b: "\<forall>e\<in>set before. e = Query Select_id"
    and c: "redisConnected w1 = redisConnected w"
    by auto
  from invalidateCache_events [of env w1] obtain inv where
    inv: "trace (invalidateCache ''tasks:*'' env w1) = trace w1 @ inv"
    "\<forall>e\<in>set inv. invalidation_event e"
    by blast
  have order: "\<exists>before inv. trace w' = trace w @ before @ [Query q] @ inv @ [Send st]
            \<and> (\<forall>e\<in>set before. e = Query Select_id)
            \<and> (\<forall>e\<in>set inv. invalidation_event e)"
    using w' t1 b inv by (intro exI [of _ before] exI [of _ inv]) simp
  have fresh: "matching ''tasks:*'' env w' = []
          \<and> (\<forall>env2. cache_now env \<le> cache_now env2 \<longrightarrow>
                fst (handle GET_tasks env2 w') = tasks_from_store env2 w'
                \<and> (\<forall>ident. fst (handle (GET_task ident) env2 w') = task_from_store ident env2 w'))"
    if ok: "redisConnected w \<and> \<not> keys_throws env \<and> \<not> del_throws env"
  proof -
    from ok c have m: "matching ''tasks:*'' env w' = []"
      by (simp add: w' invalidateCache_clears)
    have "fst (handle GET_tasks env2 w') = tasks_from_store env2 w'
        \<and> (\<forall>ident. fst (handle (GET_task ident) env2 w') = task_from_store ident env2 w')"
      if later: "cache_now env \<le> cache_now env2" for env2
    proof -
      have "glob_match ''tasks:*'' ''tasks:all''" by simp
      from no_live_match_miss [OF m this later]
      have 1: "fst (get_tasks env2 w') = tasks_from_store env2 w'" by (rule get_tasks_uncached)
      have 2: "fst (get_task ident env2 w') = task_from_store ident env2 w'" for ident
        using no_live_match_miss [OF m glob_tasks later] by (rule get_task_uncached)
      from 1 2 show ?thesis by simp
    qed
    with m show ?thesis by blast
  qed
  from order fresh show ?thesis by blast
qed


theorem write_invalidates_before_response_witness:
  "fst (fst (handle (POST_task buy_milk) (calm 6) warm)) = 201 \<and>
   matching ''tasks:*'' (calm 6) world_after_create = [] \<and>
   fst (handle GET_tasks (calm 7) world_after_create) =
     (200, DataCached (Tasks (order_by_created_at_desc (tasks world_after_create))) False) \<and>
   map task_id (order_by_created_at_desc (tasks world_after_create)) = [9, 1, 2, 3, 4, 5, 6, 7, 8] \<and>
   fst (handle (GET_task ''9'') (calm 7) world_after_create) =
     (200, DataCached (Task \<lparr>task_id = 9, title = ''Buy milk'', description = Some [],
                              completed = Some False, created_at = 6, updated_at = 6\<rparr>) False)"
proof -
  let ?row = "\<lparr>task_id = 9, title = ''Buy milk'', description = Some [],
               completed = Some False, created_at = 6, updated_at = 6\<rparr>"
  have f: "fst (handle (POST_task buy_milk) (calm 6) warm) = (201, Data (Task ?row))"
    by code_simp
  then have h: "handle (POST_task buy_milk) (calm 6) warm = ((201, Data (Task ?row)), world_after_create)"
    unfolding world_after_create_def by (metis prod.collapse)
  have q: "write_statement (POST_task buy_milk) = Some Insert" by simp
  have e: "redisConnected warm" "\<not> keys_throws (calm 6)" "\<not> del_throws (calm 6)"
    "cache_now (calm 6) \<le> cache_now (calm 7)"
    by code_simp+
  have v: "tasks_from_store (calm 7) world_after_create =
      (200, DataCached (Tasks (order_by_created_at_desc (tasks world_after_create))) False)"
    by (simp add: tasks_from_store_def)
  have g: "task_from_store ''9'' (calm 7) world_after_create = (200, DataCached (Task ?row) False)"
    by code_simp
  have o: "map task_id (order_by_created_at_desc (tasks world_after_create)) = [9, 1, 2, 3, 4, 5, 6, 7, 8]"
    by code_simp
  from write_invalidates_before_response [OF q h] e
  have "matching ''tasks:*'' (calm 6) world_after_create = []
     \<and> fst (handle GET_tasks (calm 7) world_after_create) = tasks_from_store (calm 7) world_after_create
     \<and> fst (handle (GET_task ''9'') (calm 7) world_after_create) = task_from_store ''9'' (calm 7) world_after_create"
    by simp
  with f v g o show ?thesis by simp
qed

theorem stale_list_after_failed_invalidation:
  "redisConnected warm \<and>
   fst (fst (handle (POST_task buy_milk) keys_fail warm)) = 201 \<and>
   trace world_after_failed_invalidation = trace warm @ [Query Insert, Keys ''tasks:*'', Send 201] \<and>
   map task_id (tasks world_after_failed_invalidation) = [1, 2, 3, 4, 5, 6, 7, 8, 9] \<and>
   fst (handle GET_tasks (calm 7) world_after_failed_invalidation) =
     (200, DataCached (Tasks (seed_rows 0)) True) \<and>
   map task_id (seed_rows 0) = [1, 2, 3, 4, 5, 6, 7, 8]"
  by code_simp

end
